theory Spec2Isabelle
  imports Main "HOL-Library.Sublist"
begin

section \<open>JavaScript string helpers\<close>

text \<open>
  Strings are character lists, \<open>newline\<close> is the string \<^verbatim>\<open>'\n'\<close>. \<open>startsWith\<close> is \<^verbatim>\<open>line.startsWith(c)\<close> for a
  one-character argument, \<open>substring1\<close> is \<^verbatim>\<open>line.substring(1)\<close>, \<open>join\<close> is
  \<^verbatim>\<open>Array.prototype.join\<close> and \<open>includesStr\<close> is \<^verbatim>\<open>String.prototype.includes\<close>.
\<close>

definition startsWith :: "string \<Rightarrow> char \<Rightarrow> bool" where
  "startsWith s c = (case s of [] \<Rightarrow> False | x # _ \<Rightarrow> x = c)"

definition substring1 :: "string \<Rightarrow> string" where
  "substring1 s = drop 1 s"

fun join :: "string \<Rightarrow> string list \<Rightarrow> string" where
  "join sep [] = []"
| "join sep [x] = x"
| "join sep (x # y # ys) = x @ sep @ join sep (y # ys)"

fun includesStr :: "string \<Rightarrow> string \<Rightarrow> bool" where
  "includesStr [] t = (t = [])"
| "includesStr (c # cs) t = (prefix t (c # cs) \<or> includesStr cs t)"

definition newline :: string where
  "newline = [CHR 0x0A]"

definition isContext :: "string \<Rightarrow> bool" where
  "isContext l = startsWith l CHR '' ''"

definition isAddition :: "string \<Rightarrow> bool" where
  "isAddition l = startsWith l CHR ''+''"

definition isDeletion :: "string \<Rightarrow> bool" where
  "isDeletion l = startsWith l CHR ''-''"

definition isChange :: "string \<Rightarrow> bool" where
  "isChange l = (isAddition l \<or> isDeletion l)"

text \<open>\<open>inNewFile l\<close> is the test \<^verbatim>\<open>line.startsWith(' ') || line.startsWith('+')\<close>.\<close>

definition inNewFile :: "string \<Rightarrow> bool" where
  "inNewFile l = (isContext l \<or> isAddition l)"

text \<open>The lines of the array at the indices \<open>s, ..., e\<close> (both included).\<close>

definition window :: "nat \<Rightarrow> nat \<Rightarrow> 'a list \<Rightarrow> 'a list" where
  "window s e xs = take (Suc e - s) (drop s xs)"

section \<open>Hunk extraction\<close>

text \<open>
  A hunk of the structured patch that the \<^verbatim>\<open>diff\<close> package returns, and the
  \<^verbatim>\<open>FormattingHunk\<close> interface of \<^verbatim>\<open>comment-manager.ts\<close>. The package is
  not part of the repository: the list of hunks of
  \<^verbatim>\<open>structuredPatch(filePath, filePath, originalContent, formattedContent, '', '', {context: 3})\<close>
  is a parameter of the functions below.
\<close>

record Hunk =
  oldStart :: int
  oldLines :: int
  newStart :: int
  newLines :: int
  lines :: "string list"

record FormattingHunk =
  lineNumber :: int
  content :: string
  originalLineRange :: "int \<times> int"

subsection \<open>\<^verbatim>\<open>src/src/comment-manager.ts\<close>\<close>

text \<open>
  The first loop of \<^verbatim>\<open>generateFormattingHunks\<close>: the indices of the first and of the
  last line that is an addition or a deletion, \<open>-1\<close> while none was seen. (The loop's
  \<^verbatim>\<open>currentLine\<close> is never read and is left out.)
\<close>

fun findChanges :: "string list \<Rightarrow> int \<Rightarrow> int \<times> int \<Rightarrow> int \<times> int" where
  "findChanges [] i st = st"
| "findChanges (l # ls) i (firstChangeIndex, lastChangeIndex) =
     findChanges ls (i + 1)
       (if isAddition l \<or> isDeletion l
        then (if firstChangeIndex = -1 then i else firstChangeIndex, i)
        else (firstChangeIndex, lastChangeIndex))"

text \<open>
  What one hunk of the patch contributes: nothing, or one FormattingHunk. The loop that
  counts \<^verbatim>\<open>firstChangeLine\<close> adds one for each of the lines before
  \<^verbatim>\<open>firstChangeIndex\<close> that starts with a blank or a plus sign; the loop that collects
  \<^verbatim>\<open>formattedLines\<close> keeps, of the lines from \<^verbatim>\<open>firstChangeIndex\<close> to
  \<^verbatim>\<open>lastChangeIndex\<close>, those that start with a plus sign, without the sign.
\<close>

definition formattingHunkOf :: "Hunk \<Rightarrow> FormattingHunk list" where
  "formattingHunkOf hunk =
     (let (firstChangeIndex, lastChangeIndex) = findChanges (lines hunk) 0 (-1, -1) in
      if firstChangeIndex = -1 then []
      else
        let firstChangeLine =
              newStart hunk + int (length (filter inNewFile (take (nat firstChangeIndex) (lines hunk))));
            formattedLines =
              map substring1
                (filter isAddition (window (nat firstChangeIndex) (nat lastChangeIndex) (lines hunk)))
        in if length formattedLines = 0 then []
           else [\<lparr> lineNumber = firstChangeLine,
                   content = join newline formattedLines,
                   originalLineRange = (oldStart hunk, oldStart hunk + oldLines hunk - 1) \<rparr>])"

definition generateFormattingHunks :: "Hunk list \<Rightarrow> FormattingHunk list" where
  "generateFormattingHunks patch_hunks = concat (map formattingHunkOf patch_hunks)"

subsection \<open>\<^verbatim>\<open>src/unnamed/part_002\<close>\<close>

text \<open>
  The revision of the module in \<^verbatim>\<open>src/unnamed/part_002\<close> records every change block
  of a hunk and builds one FormattingHunk per block.
\<close>

record ChangeBlock =
  startLine :: int
  startIndex :: nat
  endIndex :: nat

record ScanState =
  currentLine :: int
  inChangeBlock :: bool
  changeStartIndex :: nat
  changeStartLine :: int
  changes :: "ChangeBlock list"

fun scanLines :: "string list \<Rightarrow> nat \<Rightarrow> ScanState \<Rightarrow> ScanState" where
  "scanLines [] i s = s"
| "scanLines (l # ls) i s =
     (let s1 = (if isChange l \<and> \<not> inChangeBlock s
                then s\<lparr> inChangeBlock := True, changeStartIndex := i,
                        changeStartLine := currentLine s \<rparr>
                else if \<not> isChange l \<and> inChangeBlock s
                then s\<lparr> changes := changes s @
                          [\<lparr> startLine = changeStartLine s,
                             startIndex = changeStartIndex s,
                             endIndex = i - 1 \<rparr>],
                        inChangeBlock := False \<rparr>
                else s);
          s2 = (if isContext l \<or> isAddition l
                then s1\<lparr> currentLine := currentLine s1 + 1 \<rparr> else s1)
      in scanLines ls (Suc i) s2)"

definition changeBlocks :: "Hunk \<Rightarrow> ChangeBlock list" where
  "changeBlocks hunk =
     (let s = scanLines (lines hunk) 0
                \<lparr> currentLine = newStart hunk, inChangeBlock = False,
                   changeStartIndex = 0, changeStartLine = 0, changes = [] \<rparr>
      in if inChangeBlock s
         then changes s @
                [\<lparr> startLine = changeStartLine s, startIndex = changeStartIndex s,
                   endIndex = length (lines hunk) - 1 \<rparr>]
         else changes s)"

text \<open>
  The sub-hunk of one change block: three lines of context on each side, clamped to the
  hunk; the comment goes to the first changed line found in that window. Indices are
  natural numbers, on which \<open>s - 3\<close> is \<^verbatim>\<open>Math.max(0, s - 3)\<close>.
\<close>

definition subHunkOf :: "Hunk \<Rightarrow> ChangeBlock \<Rightarrow> FormattingHunk" where
  "subHunkOf hunk change =
     (let contextBefore = 3; contextAfter = 3;
          startIdx = startIndex change - contextBefore;
          endIdx = min (length (lines hunk) - 1) (endIndex change + contextAfter);
          firstChangeLineInSubHunk =
            (case filter (\<lambda>i. isChange (lines hunk ! i)) [startIdx ..< Suc endIdx] of
               [] \<Rightarrow> startLine change
             | i # _ \<Rightarrow> newStart hunk + int (length (filter inNewFile (take i (lines hunk)))));
          formattedLines = map substring1 (filter inNewFile (window startIdx endIdx (lines hunk)))
      in \<lparr> lineNumber = firstChangeLineInSubHunk,
           content = join newline formattedLines,
           originalLineRange = (oldStart hunk, oldStart hunk + oldLines hunk - 1) \<rparr>)"

definition generateFormattingHunks_part002 :: "Hunk list \<Rightarrow> FormattingHunk list" where
  "generateFormattingHunks_part002 patch_hunks =
     concat (map (\<lambda>hunk. map (subHunkOf hunk) (changeBlocks hunk)) patch_hunks)"

section \<open>Review comments and the GitHub API\<close>

text \<open>
  \<^verbatim>\<open>ReviewComment\<close> and \<^verbatim>\<open>PRFile\<close> of \<^verbatim>\<open>github-api.ts\<close>, and the
  \<^verbatim>\<open>ViolationComment\<close> of \<^verbatim>\<open>comment-manager.ts\<close>. An optional field is an
  \<open>option\<close>; \<open>rbody = None\<close> is the body \<^verbatim>\<open>null\<close>.
\<close>

record ReviewComment =
  rid :: int
  rpath :: string
  rbody :: "string option"
  in_reply_to_id :: "int option"
  rline :: "int option"
  original_line :: "int option"

record PRFile =
  filename :: string
  patch :: "string option"

record ViolationComment =
  vid :: int
  vpath :: string
  vbody :: string
  isResolved :: bool
  vline :: int

definition COMMENT_MARKER :: string where
  "COMMENT_MARKER = ''<!-- csharpier-action -->''"

text \<open>
  The mutating calls of the API with the arguments the module passes (owner and
  repository, the same in every call, are left out; the side is always \<^verbatim>\<open>'RIGHT'\<close>):
  \<open>CreateReviewComment pull_number body commit_id path line\<close>,
  \<open>UpdateReviewComment comment_id body\<close>, \<open>DeleteReviewComment comment_id\<close> and
  \<open>CreateReplyForReviewComment pull_number comment_id body\<close>.
\<close>

datatype ApiCall =
    CreateReviewComment int string string string int
  | UpdateReviewComment int string
  | DeleteReviewComment int
  | CreateReplyForReviewComment int int string

text \<open>
  What a function does, in order: a call that returned, a call that threw, a warning
  written with \<^verbatim>\<open>core.warning\<close> (the texts of the three warnings of the module are
  kept apart by constructor; info and debug lines are not recorded).
\<close>

datatype Warn =
    CannotCreate string
  | FailedToDelete int
  | FailedToCreate string

datatype Event = Called ApiCall | Failed ApiCall | Warning Warn

datatype Outcome = Returned | Threw

text \<open>
  The \<^verbatim>\<open>parse-diff\<close> package is not part of the repository either. Its result is a
  list of files, each a list of chunks; of a chunk the module reads \<^verbatim>\<open>newStart\<close> and
  the \<^verbatim>\<open>type\<close> of each change.
\<close>

datatype ChangeType = add | del | normal

record Chunk =
  chunkNewStart :: int
  chunkChanges :: "ChangeType list"

type_synonym ParsedFile = "Chunk list"

text \<open>
  Everything outside the module that a call depends on: the pull request of the context
  (its number and head SHA, \<open>None\<close> when the event has none), the result of
  \<^verbatim>\<open>api.listFiles\<close> and of \<^verbatim>\<open>readFile\<close> (\<open>None\<close> when the call throws), the two
  packages, the standard output of \<^verbatim>\<open>csharpier pipe-files\<close> on a given input
  (\<open>None\<close> when \<^verbatim>\<open>exec.exec\<close> throws), and which mutating calls throw:
  \<open>callFails env n\<close> says that the call attempted after \<open>n\<close> earlier attempts throws.
\<close>

record Env =
  pull_request :: "(int \<times> string) option"
  listFiles :: "PRFile list option"
  readFile :: "string \<Rightarrow> string option"
  structuredPatch :: "string \<Rightarrow> string \<Rightarrow> string \<Rightarrow> Hunk list"
  parseDiff :: "string \<Rightarrow> ParsedFile list"
  pipeFiles :: "string \<Rightarrow> string option"
  callFails :: "nat \<Rightarrow> bool"

section \<open>\<^verbatim>\<open>getExistingComments\<close>\<close>

text \<open>\<open>jsOr a b\<close> is \<^verbatim>\<open>a || b\<close> for an optional number \<open>a\<close> and a number \<open>b\<close>.\<close>

definition jsOr :: "int option \<Rightarrow> int \<Rightarrow> int" where
  "jsOr a b = (case a of None \<Rightarrow> b | Some x \<Rightarrow> if x = 0 then b else x)"

definition hasMarker :: "ReviewComment \<Rightarrow> bool" where
  "hasMarker comment =
     (case rbody comment of None \<Rightarrow> False | Some b \<Rightarrow> includesStr b COMMENT_MARKER)"

definition toViolationComment :: "ReviewComment \<Rightarrow> ViolationComment" where
  "toViolationComment comment =
     \<lparr> vid = rid comment,
       vpath = rpath comment,
       vbody = (case rbody comment of None \<Rightarrow> [] | Some b \<Rightarrow> b),
       isResolved = (in_reply_to_id comment \<noteq> None),
       vline = jsOr (rline comment) (jsOr (original_line comment) 0) \<rparr>"

text \<open>
  \<open>comments\<close> is what \<^verbatim>\<open>api.listReviewComments\<close> returned. The function is the same
  in \<^verbatim>\<open>src/src/comment-manager.ts\<close> and in \<^verbatim>\<open>src/unnamed/part_002\<close>.
\<close>

definition getExistingComments :: "Env \<Rightarrow> ReviewComment list \<Rightarrow> ViolationComment list" where
  "getExistingComments env comments =
     (case pull_request env of
        None \<Rightarrow> []
      | Some _ \<Rightarrow> map toViolationComment (filter hasMarker comments))"

section \<open>\<^verbatim>\<open>findLineInPRDiff\<close>\<close>

text \<open>
  The inner loop over the changes of one chunk, \<open>current\<close> being its
  \<^verbatim>\<open>currentLine\<close>: \<open>Some\<close> line when the function returns inside the loop,
  \<open>None\<close> when the loop ends.
\<close>

fun scanChanges :: "int \<Rightarrow> ChangeType list \<Rightarrow> int \<Rightarrow> int option" where
  "scanChanges targetLine [] current = None"
| "scanChanges targetLine (change # rest) current =
     (if change = add \<or> change = normal
      then (if current = targetLine then Some current
            else scanChanges targetLine rest (current + 1))
      else scanChanges targetLine rest current)"

fun scanChunks :: "int \<Rightarrow> Chunk list \<Rightarrow> int" where
  "scanChunks targetLine [] = 0"
| "scanChunks targetLine (chunk # rest) =
     (case scanChanges targetLine (chunkChanges chunk) (chunkNewStart chunk) of
        Some l \<Rightarrow> l
      | None \<Rightarrow> scanChunks targetLine rest)"

definition findLineInPRDiff :: "Env \<Rightarrow> string \<Rightarrow> int \<Rightarrow> int" where
  "findLineInPRDiff env prPatch targetLine =
     (case parseDiff env prPatch of
        [] \<Rightarrow> 0
      | file # _ \<Rightarrow> scanChunks targetLine file)"

section \<open>\<^verbatim>\<open>createViolationComments\<close>\<close>

definition fence :: string where
  "fence = [CHR 0x60, CHR 0x60, CHR 0x60]"

definition backtick :: string where
  "backtick = [CHR 0x60]"

subsection \<open>\<^verbatim>\<open>src/src/comment-manager.ts\<close>\<close>

definition commentBody :: "string \<Rightarrow> string \<Rightarrow> string" where
  "commentBody filePath hunkContent =
     COMMENT_MARKER @ newline @
     ''**CSharpier**: This section is not formatted correctly.'' @ newline @ newline @
     fence @ ''suggestion'' @ newline @
     hunkContent @ newline @
     fence @ newline @ newline @
     ''Run '' @ backtick @ ''dotnet csharpier format '' @ filePath @ backtick @
     '' to fix the formatting.''"

text \<open>
  The loop over the unresolved comments: each delete has a \<^verbatim>\<open>try\<close> of its own, a
  delete that throws leaves a warning and the loop goes on.
\<close>

fun deleteComments :: "Env \<Rightarrow> nat \<Rightarrow> ViolationComment list \<Rightarrow> Event list" where
  "deleteComments env n [] = []"
| "deleteComments env n (comment # rest) =
     (if callFails env n
      then [Failed (DeleteReviewComment (vid comment)), Warning (FailedToDelete (vid comment))]
      else [Called (DeleteReviewComment (vid comment))])
     @ deleteComments env (Suc n) rest"

text \<open>
  The loop over the hunks: a hunk whose line is not in the diff of the pull request is
  skipped, a create that throws ends the loop (the exception leaves it).
\<close>

fun createComments ::
  "Env \<Rightarrow> int \<Rightarrow> string \<Rightarrow> string \<Rightarrow> string \<Rightarrow> nat \<Rightarrow> FormattingHunk list
     \<Rightarrow> Event list \<times> Outcome" where
  "createComments env pullNumber filePath commitSha prPatch n [] = ([], Returned)"
| "createComments env pullNumber filePath commitSha prPatch n (hunk # rest) =
     (let lineNo = findLineInPRDiff env prPatch (lineNumber hunk) in
      if lineNo = 0 then createComments env pullNumber filePath commitSha prPatch n rest
      else
        let call = CreateReviewComment pullNumber (commentBody filePath (content hunk))
                     commitSha filePath lineNo
        in if callFails env n then ([Failed call], Threw)
           else (case createComments env pullNumber filePath commitSha prPatch (Suc n) rest of
                   (evs, out) \<Rightarrow> (Called call # evs, out)))"

text \<open>
  \<open>n\<close> is the number of mutating calls attempted before this one. Whatever throws inside
  the function is caught by its outer \<^verbatim>\<open>try\<close>, so the function always returns and its
  result is the list of events alone.
\<close>

definition createViolationComments ::
  "Env \<Rightarrow> string \<Rightarrow> string \<Rightarrow> string \<Rightarrow> ViolationComment list \<Rightarrow> nat \<Rightarrow> Event list" where
  "createViolationComments env filePath commitSha formattedContent existingComments n =
     (case pull_request env of
        None \<Rightarrow> []
      | Some (pullNumber, _) \<Rightarrow>
     (case listFiles env of
        None \<Rightarrow> [Warning (FailedToCreate filePath)]
      | Some files \<Rightarrow>
     (case find (\<lambda>f. filename f = filePath) files of
        None \<Rightarrow> [Warning (CannotCreate filePath)]
      | Some file \<Rightarrow>
     (case patch file of
        None \<Rightarrow> [Warning (CannotCreate filePath)]
      | Some prPatch \<Rightarrow>
     if prPatch = [] then [Warning (CannotCreate filePath)]
     else
     (case readFile env filePath of
        None \<Rightarrow> [Warning (FailedToCreate filePath)]
      | Some originalContent \<Rightarrow>
     (let hunks = generateFormattingHunks
                    (structuredPatch env filePath originalContent formattedContent)
      in if length hunks = 0 then []
         else
           let unresolvedComments = filter (\<lambda>c. \<not> isResolved c) existingComments;
               deleted = deleteComments env n unresolvedComments
           in (case createComments env pullNumber filePath commitSha prPatch
                       (n + length unresolvedComments) hunks of
                 (created, Returned) \<Rightarrow> deleted @ created
               | (created, Threw) \<Rightarrow>
                   deleted @ created @ [Warning (FailedToCreate filePath)])))))))"

subsection \<open>\<^verbatim>\<open>src/unnamed/part_002\<close>\<close>

definition commentBody_part002 :: "string \<Rightarrow> string \<Rightarrow> string" where
  "commentBody_part002 filePath hunkContent =
     COMMENT_MARKER @ newline @
     ''This section is not formatted according to CSharpier rules.'' @ newline @ newline @
     fence @ ''suggestion'' @ newline @
     hunkContent @ newline @
     fence @ newline @ newline @
     ''Run '' @ backtick @ ''dotnet csharpier format '' @ filePath @ backtick @
     '' to fix the formatting.''"

text \<open>
  The loop over the hunks in this revision: the first unresolved existing comment at the
  line is left alone when its body is the new body, updated otherwise; with no such
  comment a new one is created. No comment is deleted.
\<close>

fun createOrUpdateComments ::
  "Env \<Rightarrow> int \<Rightarrow> string \<Rightarrow> string \<Rightarrow> string \<Rightarrow> ViolationComment list \<Rightarrow> nat
     \<Rightarrow> FormattingHunk list \<Rightarrow> Event list \<times> Outcome" where
  "createOrUpdateComments env pullNumber filePath commitSha prPatch existingComments n [] =
     ([], Returned)"
| "createOrUpdateComments env pullNumber filePath commitSha prPatch existingComments n
     (hunk # rest) =
     (let lineNo = findLineInPRDiff env prPatch (lineNumber hunk) in
      if lineNo = 0
      then createOrUpdateComments env pullNumber filePath commitSha prPatch
             existingComments n rest
      else
        let body = commentBody_part002 filePath (content hunk) in
        (case find (\<lambda>c. vline c = lineNo \<and> \<not> isResolved c) existingComments of
           Some existingComment \<Rightarrow>
             if vbody existingComment = body
             then createOrUpdateComments env pullNumber filePath commitSha prPatch
                    existingComments n rest
             else
               let call = UpdateReviewComment (vid existingComment) body
               in if callFails env n then ([Failed call], Threw)
                  else (case createOrUpdateComments env pullNumber filePath commitSha prPatch
                               existingComments (Suc n) rest of
                          (evs, out) \<Rightarrow> (Called call # evs, out))
         | None \<Rightarrow>
             let call = CreateReviewComment pullNumber body commitSha filePath lineNo
             in if callFails env n then ([Failed call], Threw)
                else (case createOrUpdateComments env pullNumber filePath commitSha prPatch
                             existingComments (Suc n) rest of
                        (evs, out) \<Rightarrow> (Called call # evs, out))))"

definition createViolationComments_part002 ::
  "Env \<Rightarrow> string \<Rightarrow> string \<Rightarrow> string \<Rightarrow> ViolationComment list \<Rightarrow> nat \<Rightarrow> Event list" where
  "createViolationComments_part002 env filePath commitSha formattedContent existingComments n =
     (case pull_request env of
        None \<Rightarrow> []
      | Some (pullNumber, _) \<Rightarrow>
     (case listFiles env of
        None \<Rightarrow> [Warning (FailedToCreate filePath)]
      | Some files \<Rightarrow>
     (case find (\<lambda>f. filename f = filePath) files of
        None \<Rightarrow> [Warning (CannotCreate filePath)]
      | Some file \<Rightarrow>
     (case patch file of
        None \<Rightarrow> [Warning (CannotCreate filePath)]
      | Some prPatch \<Rightarrow>
     if prPatch = [] then [Warning (CannotCreate filePath)]
     else
     (case readFile env filePath of
        None \<Rightarrow> [Warning (FailedToCreate filePath)]
      | Some originalContent \<Rightarrow>
     (let hunks = generateFormattingHunks_part002
                    (structuredPatch env filePath originalContent formattedContent)
      in if length hunks = 0 then []
         else
           (case createOrUpdateComments env pullNumber filePath commitSha prPatch
                   existingComments n hunks of
              (evs, Returned) \<Rightarrow> evs
            | (evs, Threw) \<Rightarrow> evs @ [Warning (FailedToCreate filePath)])))))))"

section \<open>\<^verbatim>\<open>resolveFixedComments\<close>\<close>

text \<open>
  The reply's body as \<^verbatim>\<open>src/src/comment-manager.ts\<close> holds it: seven bytes and a
  fixed sentence. (In \<^verbatim>\<open>src/unnamed/part_002\<close> the seven bytes are the three bytes
  \<^verbatim>\<open>E2 9C 93\<close> of a check mark; the function is the same otherwise.)
\<close>

definition replyBody :: string where
  "replyBody =
     [CHR 0xC3, CHR 0xA2, CHR 0xC5, CHR 0x93, CHR 0xE2, CHR 0x80, CHR 0x9C]
     @ '' Formatting has been fixed.''"

text \<open>
  The loop over the comments to resolve has no \<^verbatim>\<open>try\<close>: a reply that throws ends the
  loop and the function throws.
\<close>

fun replyComments :: "Env \<Rightarrow> int \<Rightarrow> nat \<Rightarrow> ViolationComment list \<Rightarrow> Event list \<times> Outcome" where
  "replyComments env pullNumber n [] = ([], Returned)"
| "replyComments env pullNumber n (comment # rest) =
     (let call = CreateReplyForReviewComment pullNumber (vid comment) replyBody
      in if callFails env n then ([Failed call], Threw)
         else (case replyComments env pullNumber (Suc n) rest of
                 (evs, out) \<Rightarrow> (Called call # evs, out)))"

definition resolveFixedComments ::
  "Env \<Rightarrow> ViolationComment list \<Rightarrow> string list \<Rightarrow> nat \<Rightarrow> Event list \<times> Outcome" where
  "resolveFixedComments env existingComments fixedFiles n =
     (case pull_request env of
        None \<Rightarrow> ([], Returned)
      | Some (pullNumber, _) \<Rightarrow>
          let commentsToResolve =
                filter (\<lambda>comment. \<not> isResolved comment \<and> vpath comment \<in> set fixedFiles)
                  existingComments
          in if length commentsToResolve = 0 then ([], Returned)
             else replyComments env pullNumber n commentsToResolve)"

section \<open>The in-memory API of the tests\<close>

text \<open>
  \<^verbatim>\<open>MockGitHubAPI\<close> of \<^verbatim>\<open>src/__tests__/mock-github-api.ts\<close>: the comments and the
  next comment id, and its three mutating methods.
\<close>

record MockGitHubAPI =
  mockComments :: "ReviewComment list"
  nextCommentId :: int

definition newMock :: MockGitHubAPI where
  "newMock = \<lparr> mockComments = [], nextCommentId = 1 \<rparr>"

text \<open>\<open>updateFirst P f xs\<close> changes the element that \<^verbatim>\<open>xs.find(P)\<close> returns.\<close>

fun updateFirst :: "('a \<Rightarrow> bool) \<Rightarrow> ('a \<Rightarrow> 'a) \<Rightarrow> 'a list \<Rightarrow> 'a list" where
  "updateFirst P f [] = []"
| "updateFirst P f (x # xs) = (if P x then f x # xs else x # updateFirst P f xs)"

fun mockCall :: "ApiCall \<Rightarrow> MockGitHubAPI \<Rightarrow> MockGitHubAPI" where
  "mockCall (CreateReviewComment pullNumber body commitId path line) m =
     \<lparr> mockComments = mockComments m @
         [\<lparr> rid = nextCommentId m, rpath = path, rbody = Some body,
            in_reply_to_id = None, rline = Some line, original_line = None \<rparr>],
       nextCommentId = nextCommentId m + 1 \<rparr>"
| "mockCall (UpdateReviewComment commentId body) m =
     m\<lparr> mockComments :=
          updateFirst (\<lambda>c. rid c = commentId) (\<lambda>c. c\<lparr> rbody := Some body \<rparr>) (mockComments m) \<rparr>"
| "mockCall (CreateReplyForReviewComment pullNumber commentId body) m =
     m\<lparr> mockComments :=
          updateFirst (\<lambda>c. rid c = commentId) (\<lambda>c. c\<lparr> in_reply_to_id := Some commentId \<rparr>)
            (mockComments m) \<rparr>"
| "mockCall (DeleteReviewComment commentId) m = m"

text \<open>
  The class has no method for deleting a comment; no statement below replays a delete,
  and \<open>mockCall\<close> leaves the comments as they are on one. \<open>replay\<close> applies the calls
  that returned, in order.
\<close>

fun replay :: "Event list \<Rightarrow> MockGitHubAPI \<Rightarrow> MockGitHubAPI" where
  "replay [] m = m"
| "replay (Called call # evs) m = replay evs (mockCall call m)"
| "replay (_ # evs) m = replay evs m"

section \<open>\<^verbatim>\<open>formatFiles\<close> and the caller\<close>

text \<open>\<^verbatim>\<open>s.split(sep)\<close> for a separator of one character.\<close>

fun splitOn :: "char \<Rightarrow> string \<Rightarrow> string list" where
  "splitOn sep [] = [[]]"
| "splitOn sep (c # cs) =
     (if c = sep then [] # splitOn sep cs
      else (case splitOn sep cs of
              [] \<Rightarrow> [[c]]
            | w # ws \<Rightarrow> (c # w) # ws))"

definition ETX :: char where
  "ETX = CHR 0x03"

text \<open>The input of the formatter; \<open>None\<close> when a file cannot be read.\<close>

fun buildInput :: "Env \<Rightarrow> string list \<Rightarrow> string option" where
  "buildInput env [] = Some []"
| "buildInput env (filePath # rest) =
     (case readFile env filePath of
        None \<Rightarrow> None
      | Some fileContent \<Rightarrow>
          (case buildInput env rest of
             None \<Rightarrow> None
           | Some others \<Rightarrow> Some (filePath @ [ETX] @ fileContent @ [ETX] @ others)))"



text \<open>
  The caller, \<^verbatim>\<open>run\<close> (the second document of \<^verbatim>\<open>src/src/pr-files.ts\<close>), collects
  the unformatted files: those whose formatted content is in the map, is not empty and
  differs from the file. \<open>None\<close> when a file cannot be read.
\<close>

fun unformattedFilesOf :: "Env \<Rightarrow> (string \<rightharpoonup> string) \<Rightarrow> string list \<Rightarrow> string list option" where
  "unformattedFilesOf env formattedMap [] = Some []"
| "unformattedFilesOf env formattedMap (filePath # rest) =
     (case readFile env filePath of
        None \<Rightarrow> None
      | Some originalContent \<Rightarrow>
          (case unformattedFilesOf env formattedMap rest of
             None \<Rightarrow> None
           | Some others \<Rightarrow>
               (case formattedMap filePath of
                  None \<Rightarrow> Some others
                | Some formattedContent \<Rightarrow>
                    if formattedContent \<noteq> [] \<and> originalContent \<noteq> formattedContent
                    then Some (filePath # others) else Some others)))"

text \<open>The mutating calls a list of events attempted.\<close>

fun attempts :: "Event list \<Rightarrow> ApiCall list" where
  "attempts [] = []"
| "attempts (Called call # evs) = call # attempts evs"
| "attempts (Failed call # evs) = call # attempts evs"
| "attempts (Warning w # evs) = attempts evs"

text \<open>
  The loop of \<^verbatim>\<open>run\<close> over the unformatted files, each with the existing comments of
  its path.
\<close>

fun violationLoop ::
  "Env \<Rightarrow> string \<Rightarrow> (string \<rightharpoonup> string) \<Rightarrow> ViolationComment list \<Rightarrow> nat \<Rightarrow> string list
     \<Rightarrow> Event list" where
  "violationLoop env commitSha formattedMap existingComments n [] = []"
| "violationLoop env commitSha formattedMap existingComments n (file # rest) =
     (let fileComments = filter (\<lambda>c. vpath c = file) existingComments;
          evs = (case formattedMap file of
                   Some formattedContent \<Rightarrow>
                     createViolationComments env file commitSha formattedContent fileComments n
                 | None \<Rightarrow> [Warning (FailedToCreate file)])
      in evs @ violationLoop env commitSha formattedMap existingComments
                 (n + length (attempts evs)) rest)"

text \<open>
  The part of \<^verbatim>\<open>run\<close> from the changed files on, on a pull request event
  (\<^verbatim>\<open>run\<close> returns at once on any other). \<open>filePaths\<close> are the paths of the changed
  C-sharp files; with none, \<^verbatim>\<open>run\<close> returns before it reads the comments or replies to
  any. Otherwise \<open>existingComments\<close> is what \<open>getExistingComments\<close> returned and
  \<open>formattedMap\<close> what \<open>formatFiles\<close> returned, and the function follows
  \<^verbatim>\<open>run\<close> from \<^verbatim>\<open>// Identify unformatted files\<close> to the loop over the unformatted
  files. An exception ends \<^verbatim>\<open>run\<close> in its \<^verbatim>\<open>catch\<close>, which sets the action failed.
  A file of the loop is a key of the map (see \<open>unformattedFilesOf_subset\<close> below), so
  the branch \<open>None\<close> of \<open>violationLoop\<close>, which stands for a call with an undefined
  content, is never taken from here.
\<close>

definition runReconcile ::
  "Env \<Rightarrow> ViolationComment list \<Rightarrow> (string \<rightharpoonup> string) \<Rightarrow> string list \<Rightarrow> Event list \<times> Outcome" where
  "runReconcile env existingComments formattedMap filePaths =
     (case pull_request env of
        None \<Rightarrow> ([], Returned)
      | Some (_, commitSha) \<Rightarrow>
     if length filePaths = 0 then ([], Returned)
     else
     (case unformattedFilesOf env formattedMap filePaths of
        None \<Rightarrow> ([], Threw)
      | Some unformattedFiles \<Rightarrow>
          let previouslyUnformattedFiles = map vpath existingComments;
              fixedFiles = filter (\<lambda>file. file \<notin> set unformattedFiles) previouslyUnformattedFiles;
              resolved = (if length fixedFiles > 0
                          then resolveFixedComments env existingComments fixedFiles 0
                          else ([], Returned))
          in (case resolved of
                (evs, Threw) \<Rightarrow> (evs, Threw)
              | (evs, Returned) \<Rightarrow>
                  (evs @ violationLoop env commitSha formattedMap existingComments
                           (length (attempts evs)) unformattedFiles,
                   Returned))))"

section \<open>Notions used in the statements\<close>

subsection \<open>The lookup as the specification words it\<close>

text \<open>
  The new-file lines a chunk tracks: its declared start and one more line for each
  further \<open>add\<close> or \<open>normal\<close> entry. \<open>locate\<close> is the lookup in the words of the
  specification: the first tracked line, chunks in order, that equals the target, and
  \<open>0\<close> when there is none.
\<close>

definition inNewSide :: "ChangeType \<Rightarrow> bool" where
  "inNewSide change = (change = add \<or> change = normal)"

definition trackedLines :: "Chunk \<Rightarrow> int list" where
  "trackedLines chunk =
     map (\<lambda>k. chunkNewStart chunk + int k)
       [0 ..< length (filter inNewSide (chunkChanges chunk))]"

definition locate :: "Chunk list \<Rightarrow> int \<Rightarrow> int" where
  "locate chunks targetLine =
     (case find (\<lambda>l. l = targetLine) (concat (map trackedLines chunks)) of
        Some l \<Rightarrow> l
      | None \<Rightarrow> 0)"

text \<open>
  The new-file lines that the patch of the pull request shows: the tracked lines of the
  chunks of the first parsed file.
\<close>

definition visibleLines :: "Env \<Rightarrow> string \<Rightarrow> int list" where
  "visibleLines env prPatch =
     (case parseDiff env prPatch of
        [] \<Rightarrow> []
      | file # _ \<Rightarrow> concat (map trackedLines file))"

subsection \<open>Calls, failures and warnings\<close>

text \<open>
  A reply exists under a comment, in the words of the claim: some comment of the list
  is a reply to it.
\<close>

definition hasReplyIn :: "ReviewComment list \<Rightarrow> int \<Rightarrow> bool" where
  "hasReplyIn comments commentId = list_ex (\<lambda>r. in_reply_to_id r = Some commentId) comments"


fun isCreateAt :: "int \<Rightarrow> ApiCall \<Rightarrow> bool" where
  "isCreateAt l (CreateReviewComment pullNumber body commitId path line) = (line = l)"
| "isCreateAt l _ = False"


text \<open>
  What \<^verbatim>\<open>createViolationComments\<close> has in hand when it reaches the hunks: the number of
  the pull request, the patch of the file in the pull request and the hunks of the
  structured patch; \<open>None\<close> when it returns or fails before (no pull request, the file
  list or the file cannot be read, the file is not listed or has no patch).
\<close>

definition reconcileInput :: "Env \<Rightarrow> string \<Rightarrow> string \<Rightarrow> (int \<times> string \<times> Hunk list) option" where
  "reconcileInput env filePath formattedContent =
     (case pull_request env of
        None \<Rightarrow> None
      | Some (pullNumber, _) \<Rightarrow>
     (case listFiles env of
        None \<Rightarrow> None
      | Some files \<Rightarrow>
     (case find (\<lambda>f. filename f = filePath) files of
        None \<Rightarrow> None
      | Some file \<Rightarrow>
     (case patch file of
        None \<Rightarrow> None
      | Some prPatch \<Rightarrow>
     if prPatch = [] then None
     else
     (case readFile env filePath of
        None \<Rightarrow> None
      | Some originalContent \<Rightarrow>
          Some (pullNumber, prPatch,
                structuredPatch env filePath originalContent formattedContent))))))"

text \<open>
  The creations a pass of \<^verbatim>\<open>src/src/comment-manager.ts\<close> goes through: one for each hunk,
  in order, whose anchor line the patch of the pull request shows (and is not \<open>0\<close>, the
  number that stands for a line that is not shown).
\<close>

definition creationsFor ::
  "Env \<Rightarrow> int \<Rightarrow> string \<Rightarrow> string \<Rightarrow> string \<Rightarrow> FormattingHunk list \<Rightarrow> ApiCall list" where
  "creationsFor env pullNumber filePath commitSha prPatch hunks =
     map (\<lambda>hunk. CreateReviewComment pullNumber (commentBody filePath (content hunk))
                    commitSha filePath (lineNumber hunk))
       (filter (\<lambda>hunk. lineNumber hunk \<noteq> 0 \<and> lineNumber hunk \<in> set (visibleLines env prPatch))
          hunks)"

text \<open>
  The calls of a list up to and including the first one that throws, the first call being
  attempted after \<open>n\<close> earlier attempts.
\<close>

fun untilFailure :: "(nat \<Rightarrow> bool) \<Rightarrow> nat \<Rightarrow> ApiCall list \<Rightarrow> ApiCall list" where
  "untilFailure fails n [] = []"
| "untilFailure fails n (call # rest) =
     call # (if fails n then [] else untilFailure fails (Suc n) rest)"

text \<open>
  The calls that threw, the warnings written, and the warning that
  \<^verbatim>\<open>src/src/comment-manager.ts\<close> writes when a delete or a create throws.
\<close>

fun failedCalls :: "Event list \<Rightarrow> ApiCall list" where
  "failedCalls [] = []"
| "failedCalls (Failed call # evs) = call # failedCalls evs"
| "failedCalls (_ # evs) = failedCalls evs"

fun warnings :: "Event list \<Rightarrow> Warn list" where
  "warnings [] = []"
| "warnings (Warning w # evs) = w # warnings evs"
| "warnings (_ # evs) = warnings evs"

fun warningOf :: "ApiCall \<Rightarrow> Warn option" where
  "warningOf (DeleteReviewComment commentId) = Some (FailedToDelete commentId)"
| "warningOf (CreateReviewComment pullNumber body commitId path line) =
     Some (FailedToCreate path)"
| "warningOf _ = None"

subsection \<open>Change blocks and slices of the formatted file\<close>

text \<open>
  The index of the first and of the last changed line of a hunk, the new-file lines a
  hunk covers (context and added lines, marker stripped), and what it means that a hunk
  is a hunk of a diff to the formatted file: its new-file lines are the lines of that
  file from line \<open>newStart\<close> on.
\<close>

definition firstChange :: "string list \<Rightarrow> nat" where
  "firstChange ls = length (takeWhile (\<lambda>l. \<not> isChange l) ls)"

definition lastChange :: "string list \<Rightarrow> nat" where
  "lastChange ls = length ls - 1 - length (takeWhile (\<lambda>l. \<not> isChange l) (rev ls))"

definition newSide :: "Hunk \<Rightarrow> string list" where
  "newSide hunk = map substring1 (filter inNewFile (lines hunk))"

definition agreesWith :: "Hunk \<Rightarrow> string list \<Rightarrow> bool" where
  "agreesWith hunk formattedLines =
     (1 \<le> newStart hunk \<and>
      take (length (newSide hunk)) (drop (nat (newStart hunk - 1)) formattedLines)
        = newSide hunk)"

text \<open>
  The number of change blocks of a hunk in the words of the specification: the maximal
  runs of consecutive added or deleted lines. A run starts at a changed line that is the
  first line or follows a line that is not a change; \<open>inRun\<close> says whether the line
  before was a change.
\<close>

fun countRuns :: "bool \<Rightarrow> string list \<Rightarrow> nat" where
  "countRuns inRun [] = 0"
| "countRuns inRun (l # ls) =
     (if isChange l \<and> \<not> inRun then 1 else 0) + countRuns (isChange l) ls"

text \<open>
  The lines of a hunk from its first to its last changed line. When no context line is
  among them the hunk has one change block, and \<open>paddedContent\<close> is the suggested
  content in the words of the specification: every context or added line in the window
  of the block padded by three lines on each side, clamped to the hunk, joined by
  newlines.
\<close>

definition changedLines :: "Hunk \<Rightarrow> string list" where
  "changedLines hunk =
     window (firstChange (lines hunk)) (lastChange (lines hunk)) (lines hunk)"

definition paddedContent :: "Hunk \<Rightarrow> string" where
  "paddedContent hunk =
     join newline
       (map substring1
          (filter inNewFile
             (window (firstChange (lines hunk) - 3)
                (min (length (lines hunk) - 1) (lastChange (lines hunk) + 3))
                (lines hunk))))"

section \<open>Examples\<close>

text \<open>
  A repository file \<^verbatim>\<open>a.cs\<close> with the five lines \<^verbatim>\<open>A B C D E\<close>, whose formatted
  content is \<^verbatim>\<open>A X C Y E\<close>: two changed lines with the unchanged \<^verbatim>\<open>C\<close> between
  them. A line diff with three lines of context gives one hunk; neither text ends in a
  newline, so the hunk ends with the marker line of the \<^verbatim>\<open>diff\<close> package (no result
  below depends on that line). The pull request shows all five lines of the file.
\<close>

definition abcOriginal :: string where
  "abcOriginal = ''A'' @ newline @ ''B'' @ newline @ ''C'' @ newline @ ''D'' @ newline @ ''E''"

definition abcFormatted :: string where
  "abcFormatted = ''A'' @ newline @ ''X'' @ newline @ ''C'' @ newline @ ''Y'' @ newline @ ''E''"

definition abcFormattedLines :: "string list" where
  "abcFormattedLines = [''A'', ''X'', ''C'', ''Y'', ''E'']"

definition abcHunk :: Hunk where
  "abcHunk = \<lparr> oldStart = 1, oldLines = 5, newStart = 1, newLines = 5,
      lines = ['' A'', ''-B'', ''+X'', '' C'', ''-D'', ''+Y'', '' E'',
               CHR 0x5C # '' No newline at end of file''] \<rparr>"

definition abcPatch :: string where
  "abcPatch = ''@@ -1,5 +1,5 @@'' @ newline @ '' A'' @ newline @ ''-b'' @ newline @ ''+B''
      @ newline @ '' C'' @ newline @ ''-d'' @ newline @ ''+D'' @ newline @ '' E''"

definition abcChunk :: Chunk where
  "abcChunk = \<lparr> chunkNewStart = 1,
      chunkChanges = [normal, del, add, normal, del, add, normal] \<rparr>"

definition abcEnv :: Env where
  "abcEnv = \<lparr> pull_request = Some (6, ''51636e9''),
      listFiles = Some [\<lparr> filename = ''a.cs'', patch = Some abcPatch \<rparr>],
      readFile = (\<lambda>p. if p = ''a.cs'' then Some abcOriginal else None),
      structuredPatch = (\<lambda>p original formatted.
         if original = abcOriginal \<and> formatted = abcFormatted then [abcHunk] else []),
      parseDiff = (\<lambda>p. if p = abcPatch then [[abcChunk]] else []),
      pipeFiles = (\<lambda>input. None),
      callFails = (\<lambda>n. False) \<rparr>"

text \<open>
  A tool-owned comment with a reply under it, as the API lists them once
  \<^verbatim>\<open>createReplyForReviewComment\<close> has answered comment 1.
\<close>

definition repliedComments :: "ReviewComment list" where
  "repliedComments =
     [\<lparr> rid = 1, rpath = ''a.cs'', rbody = Some (commentBody ''a.cs'' ''X''),
        in_reply_to_id = None, rline = Some 2, original_line = None \<rparr>,
      \<lparr> rid = 2, rpath = ''a.cs'', rbody = Some replyBody,
        in_reply_to_id = Some 1, rline = Some 2, original_line = None \<rparr>]"

text \<open>
  The single tool-owned comment of the repository's test
  \<^verbatim>\<open>identifies resolved comments\<close>: it carries an \<^verbatim>\<open>in_reply_to_id\<close> itself and
  nothing in the list replies to it.
\<close>

definition selfReplyComments :: "ReviewComment list" where
  "selfReplyComments =
     [\<lparr> rid = 1, rpath = ''test.cs'',
        rbody = Some (COMMENT_MARKER @ newline @ ''Formatting issue''),
        in_reply_to_id = Some 999, rline = None, original_line = None \<rparr>]"




text \<open>
  The case of the repository's test \<^verbatim>\<open>creates no comments when violations are outside
  PR diff\<close>, with shorter lines: a file of ten lines whose first line is badly
  formatted, in a pull request whose patch shows lines 5 to 9 only.
\<close>

definition outsideOriginal :: string where
  "outsideOriginal = join newline [''n  T'', ''{'', ''c'', ''{'', ''m'', ''{'', ''x'', ''}'', ''}'', ''}'']"

definition outsideFormatted :: string where
  "outsideFormatted = join newline [''n T'', ''{'', ''c'', ''{'', ''m'', ''{'', ''x'', ''}'', ''}'', ''}'']"

definition outsideHunk :: Hunk where
  "outsideHunk = \<lparr> oldStart = 1, oldLines = 4, newStart = 1, newLines = 4,
      lines = [''-n  T'', ''+n T'', '' {'', '' c'', '' {''] \<rparr>"

definition outsidePatch :: string where
  "outsidePatch = join newline [''@@ -5,5 +5,5 @@'', '' m'', '' {'', '' x'', '' }'', '' }'']"

definition outsideEnv :: Env where
  "outsideEnv = \<lparr> pull_request = Some (6, ''51636e9''),
      listFiles = Some [\<lparr> filename = ''t.cs'', patch = Some outsidePatch \<rparr>],
      readFile = (\<lambda>p. if p = ''t.cs'' then Some outsideOriginal else None),
      structuredPatch = (\<lambda>p original formatted.
         if original = outsideOriginal \<and> formatted = outsideFormatted then [outsideHunk] else []),
      parseDiff = (\<lambda>p. if p = outsidePatch
         then [[\<lparr> chunkNewStart = 5, chunkChanges = [normal, normal, normal, normal, normal] \<rparr>]]
         else []),
      pipeFiles = (\<lambda>input. None),
      callFails = (\<lambda>n. False) \<rparr>"

text \<open>
  The case of the repository's test \<^verbatim>\<open>creates multiple comments for multiple hunks\<close>,
  with shorter lines: twelve lines, the first and the ninth badly formatted, all shown
  by the pull request. The diff has two hunks. In \<open>failingEnv\<close> the first mutating call
  throws.
\<close>

definition twoOriginal :: string where
  "twoOriginal = join newline
     [''n  T'', ''{'', ''c'', ''{'', ''m'', ''}'', ''}'', '''', ''p  A'', ''{'', ''m'', ''}'']"

definition twoFormatted :: string where
  "twoFormatted = join newline
     [''n T'', ''{'', ''c'', ''{'', ''m'', ''}'', ''}'', '''', ''p A'', ''{'', ''m'', ''}'']"

definition twoHunks :: "Hunk list" where
  "twoHunks =
     [\<lparr> oldStart = 1, oldLines = 4, newStart = 1, newLines = 4,
        lines = [''-n  T'', ''+n T'', '' {'', '' c'', '' {''] \<rparr>,
      \<lparr> oldStart = 6, oldLines = 7, newStart = 6, newLines = 7,
        lines = ['' }'', '' }'', '' '', ''-p  A'', ''+p A'', '' {'', '' m'', '' }'',
                 CHR 0x5C # '' No newline at end of file''] \<rparr>]"

definition twoPatch :: string where
  "twoPatch = join newline
     [''@@ -1,12 +1,12 @@'', ''-n  t'', ''+n  T'', '' {'', '' c'', '' {'', '' m'', '' }'', '' }'',
      '' '', ''-p  a'', ''+p  A'', '' {'', '' m'', '' }'']"

definition twoEnv :: Env where
  "twoEnv = \<lparr> pull_request = Some (6, ''51636e9''),
      listFiles = Some [\<lparr> filename = ''m.cs'', patch = Some twoPatch \<rparr>],
      readFile = (\<lambda>p. if p = ''m.cs'' then Some twoOriginal else None),
      structuredPatch = (\<lambda>p original formatted.
         if original = twoOriginal \<and> formatted = twoFormatted then twoHunks else []),
      parseDiff = (\<lambda>p. if p = twoPatch
         then [[\<lparr> chunkNewStart = 1,
                  chunkChanges = [del, add, normal, normal, normal, normal, normal, normal,
                                  normal, del, add, normal, normal, normal] \<rparr>]]
         else []),
      pipeFiles = (\<lambda>input. None),
      callFails = (\<lambda>n. False) \<rparr>"

definition failingEnv :: Env where
  "failingEnv = twoEnv \<lparr> callFails := (\<lambda>n. n = 0) \<rparr>"

text \<open>Two unresolved tool-owned comments on files that are now well formatted.\<close>

definition twoFixed :: "ViolationComment list" where
  "twoFixed =
     [\<lparr> vid = 1, vpath = ''x.cs'', vbody = commentBody ''x.cs'' ''X'',
        isResolved = False, vline = 5 \<rparr>,
      \<lparr> vid = 2, vpath = ''y.cs'', vbody = commentBody ''y.cs'' ''Y'',
        isResolved = False, vline = 7 \<rparr>]"

text \<open>Two unresolved tool-owned comments on the twelve-line file.\<close>

definition twoExisting :: "ViolationComment list" where
  "twoExisting =
     [\<lparr> vid = 11, vpath = ''m.cs'', vbody = commentBody ''m.cs'' ''n T'',
        isResolved = False, vline = 1 \<rparr>,
      \<lparr> vid = 12, vpath = ''m.cs'', vbody = commentBody ''m.cs'' ''old'',
        isResolved = False, vline = 9 \<rparr>]"

text \<open>
  The comment that the first pass of \<^verbatim>\<open>src/src/comment-manager.ts\<close> over the example
  file \<^verbatim>\<open>a.cs\<close> leaves behind, as \<open>getExistingComments\<close> returns it in the next run.
\<close>

definition abcLeftBehind :: "ViolationComment list" where
  "abcLeftBehind =
     [\<lparr> vid = 1, vpath = ''a.cs'', vbody = commentBody ''a.cs'' (''X'' @ newline @ ''Y''),
        isResolved = False, vline = 2 \<rparr>]"

text \<open>The lines of the formatted twelve-line file.\<close>

definition twoFormattedLines :: "string list" where
  "twoFormattedLines =
     [''n T'', ''{'', ''c'', ''{'', ''m'', ''}'', ''}'', '''', ''p A'', ''{'', ''m'', ''}'']"

section \<open>Properties\<close>

subsection \<open>The lookup in the diff of the pull request\<close>

lemma upt_shift:
  "map (\<lambda>k. c + int k) [0 ..< Suc n] = c # map (\<lambda>k. (c + 1) + int k) [0 ..< n]"
proof -
  have "[0 ..< Suc n] = 0 # map Suc [0 ..< n]"
    by (simp add: upt_conv_Cons map_Suc_upt del: upt_Suc)
  then show ?thesis by (simp add: comp_def add.assoc del: upt_Suc)
qed

lemma scanChanges_find:
  "scanChanges t cs cur =
     find (\<lambda>l. l = t) (map (\<lambda>k. cur + int k) [0 ..< length (filter inNewSide cs)])"
proof (induction cs arbitrary: cur)
  case Nil
  then show ?case by simp
next
  case (Cons c cs)
  show ?case
  proof (cases "inNewSide c")
    case True
    then have c: "c = add \<or> c = normal" by (simp add: inNewSide_def)
    have "length (filter inNewSide (c # cs)) = Suc (length (filter inNewSide cs))"
      using True by simp
    then have "map (\<lambda>k. cur + int k) [0 ..< length (filter inNewSide (c # cs))]
         = cur # map (\<lambda>k. (cur + 1) + int k) [0 ..< length (filter inNewSide cs)]"
      by (simp only: upt_shift)
    then show ?thesis using c Cons.IH [of "cur + 1"] by auto
  next
    case False
    then have "c \<noteq> add \<and> c \<noteq> normal" by (simp add: inNewSide_def)
    then show ?thesis using False Cons.IH [of cur] by simp
  qed
qed

lemma find_over_append:
  "find P (xs @ ys) = (case find P xs of None \<Rightarrow> find P ys | Some x \<Rightarrow> Some x)"
  by (induction xs) auto

lemma scanChunks_locate: "scanChunks t chunks = locate chunks t"
proof (induction chunks)
  case Nil
  then show ?case by (simp add: locate_def)
next
  case (Cons ch chs)
  then show ?case
    by (simp add: locate_def scanChanges_find trackedLines_def find_over_append
        split: option.splits)
qed

lemma find_eq_absent: "t \<notin> set xs \<Longrightarrow> find (\<lambda>l. l = t) xs = None"
  by (induction xs) auto

lemma find_eq_present: "t \<in> set xs \<Longrightarrow> find (\<lambda>l. l = t) xs = Some t"
  by (induction xs) auto

lemma locate_cases:
  "locate chunks t = (if t \<in> set (concat (map trackedLines chunks)) then t else 0)"
proof (cases "t \<in> set (concat (map trackedLines chunks))")
  case True
  then show ?thesis using find_eq_present [OF True] by (simp add: locate_def)
next
  case False
  then show ?thesis using find_eq_absent [OF False] by (simp add: locate_def)
qed

lemma findLineInPRDiff_cases:
  "findLineInPRDiff env prPatch t =
     (case parseDiff env prPatch of
        [] \<Rightarrow> 0
      | file # _ \<Rightarrow> if t \<in> set (concat (map trackedLines file)) then t else 0)"
  by (simp add: findLineInPRDiff_def scanChunks_locate locate_cases split: list.splits)

lemma findLineInPRDiff_result:
  "findLineInPRDiff env prPatch t = t \<or> findLineInPRDiff env prPatch t = 0"
  by (simp add: findLineInPRDiff_cases split: list.splits)

text \<open>
  Claim C6. For every patch text and target line, \<open>findLineInPRDiff\<close> is the lookup of
  the specification on the chunks of the first parsed file: it walks the chunks in order,
  tracks in each chunk the new-file line from the chunk's \<open>newStart\<close>, advancing on
  \<open>add\<close> and \<open>normal\<close> entries only, and returns the first tracked line equal to the
  target, \<open>0\<close> when there is none (and when the parser returns no file). So the result
  is the target itself or \<open>0\<close>.
\<close>

theorem findLineInPRDiff_is_locate:
  "findLineInPRDiff env prPatch targetLine =
     (case parseDiff env prPatch of [] \<Rightarrow> 0 | file # _ \<Rightarrow> locate file targetLine)
   \<and> (findLineInPRDiff env prPatch targetLine = targetLine
        \<or> findLineInPRDiff env prPatch targetLine = 0)"
  by (auto simp: findLineInPRDiff_def scanChunks_locate locate_cases split: list.splits)

subsection \<open>The resolved state of an existing comment\<close>

text \<open>
  Claim C4, as the code has it. On a pull request event \<open>getExistingComments\<close> returns
  one comment for each listed comment whose body holds the marker, in order and with
  its id, and that comment is resolved exactly when the listed comment itself has an
  \<^verbatim>\<open>in_reply_to_id\<close>, that is, when it is a reply; without a pull request the result
  is empty.
\<close>

theorem getExistingComments_isResolved:
  "map (\<lambda>v. (vid v, isResolved v)) (getExistingComments env comments) =
     (case pull_request env of
        None \<Rightarrow> []
      | Some _ \<Rightarrow> map (\<lambda>c. (rid c, in_reply_to_id c \<noteq> None)) (filter hasMarker comments))"
  by (simp add: getExistingComments_def toViolationComment_def comp_def split: option.splits)

text \<open>
  The claim as stated fails in both directions. Comment 1 of \<open>repliedComments\<close> has a
  reply under it and is returned unresolved (the reply has no marker and is not
  returned); comment 1 of \<open>selfReplyComments\<close> has no reply under it and is returned
  resolved.
\<close>

theorem isResolved_is_not_reply_presence:
  "map (\<lambda>v. (vid v, isResolved v)) (getExistingComments abcEnv repliedComments) = [(1, False)]
   \<and> hasReplyIn repliedComments 1
   \<and> map (\<lambda>v. (vid v, isResolved v)) (getExistingComments abcEnv selfReplyComments) = [(1, True)]
   \<and> \<not> hasReplyIn selfReplyComments 1"
  by code_simp

subsection \<open>Hunks of the example\<close>

text \<open>
  In general the function of \<^verbatim>\<open>src/src/comment-manager.ts\<close> yields at most one
  FormattingHunk for each hunk of the diff, and the revision of
  \<^verbatim>\<open>src/unnamed/part_002\<close> yields one for each change block.
\<close>

lemma scanLines_blocks:
  "length (changes (scanLines ls i s)) + (if inChangeBlock (scanLines ls i s) then 1 else 0)
     = length (changes s) + (if inChangeBlock s then 1 else 0) + countRuns (inChangeBlock s) ls"
proof (induction ls arbitrary: i s)
  case Nil
  then show ?case by simp
next
  case (Cons l ls)
  show ?case
    by (simp add: Let_def Cons.IH)
qed

lemma part002_one_hunk_per_run:
  "length (generateFormattingHunks_part002 patch_hunks)
     = sum_list (map (\<lambda>hunk. countRuns False (lines hunk)) patch_hunks)"
proof (induction patch_hunks)
  case Nil
  then show ?case by (simp add: generateFormattingHunks_part002_def)
next
  case (Cons hunk rest)
  have "length (changeBlocks hunk) = countRuns False (lines hunk)"
    using scanLines_blocks [of "lines hunk" 0
        "\<lparr> currentLine = newStart hunk, inChangeBlock = False,
           changeStartIndex = 0, changeStartLine = 0, changes = [] \<rparr>"]
    by (simp add: changeBlocks_def Let_def split: if_splits)
  then show ?case using Cons by (simp add: generateFormattingHunks_part002_def)
qed

lemma at_most_one_hunk_per_diff_hunk:
  "length (generateFormattingHunks patch_hunks) \<le> length patch_hunks"
proof (induction patch_hunks)
  case Nil
  then show ?case by (simp add: generateFormattingHunks_def)
next
  case (Cons hunk rest)
  have "length (formattingHunkOf hunk) \<le> 1"
    by (simp add: formattingHunkOf_def Let_def split: prod.splits)
  then show ?case using Cons by (simp add: generateFormattingHunks_def)
qed

text \<open>
  Claim C2 at its own example. For the original \<^verbatim>\<open>A B C D E\<close> and the formatted
  \<^verbatim>\<open>A X C Y E\<close>, whose diff hunk has two change blocks,
  \<open>generateFormattingHunks\<close> of \<^verbatim>\<open>src/src/comment-manager.ts\<close> yields one
  FormattingHunk, anchored at line 2 with the content \<^verbatim>\<open>X\<close>, \<^verbatim>\<open>Y\<close>; the revision in
  \<^verbatim>\<open>src/unnamed/part_002\<close> yields two.
\<close>

theorem generateFormattingHunks_does_not_split:
  "generateFormattingHunks (structuredPatch abcEnv ''a.cs'' abcOriginal abcFormatted) =
     [\<lparr> lineNumber = 2, content = ''X'' @ newline @ ''Y'', originalLineRange = (1, 5) \<rparr>]
   \<and> sum_list (map (\<lambda>hunk. countRuns False (lines hunk))
                 (structuredPatch abcEnv ''a.cs'' abcOriginal abcFormatted)) = 2
   \<and> length (generateFormattingHunks_part002
               (structuredPatch abcEnv ''a.cs'' abcOriginal abcFormatted)) = 2"
  by code_simp

text \<open>
  Claim C5 at a failing input, in the revision of \<^verbatim>\<open>src/unnamed/part_002\<close>. With no
  existing comment, one pass over the example file creates two comments, both at line 2:
  the window of the second change block reaches back to the first block, whose line is
  taken as the anchor. Replayed on the in-memory API of the tests, the file then has two
  unresolved tool-owned comments at line 2.
\<close>

theorem part002_two_comments_on_one_line:
  "map (\<lambda>hunk. (lineNumber hunk, content hunk))
     (generateFormattingHunks_part002 (structuredPatch abcEnv ''a.cs'' abcOriginal abcFormatted)) =
     [(2, ''A'' @ newline @ ''X'' @ newline @ ''C'' @ newline @ ''Y''),
      (2, ''X'' @ newline @ ''C'' @ newline @ ''Y'' @ newline @ ''E'')]
   \<and> map (\<lambda>v. (vpath v, vline v, isResolved v))
       (getExistingComments abcEnv
          (mockComments
             (replay (createViolationComments_part002 abcEnv ''a.cs'' ''51636e9'' abcFormatted [] 0)
                newMock))) =
     [(''a.cs'', 2, False), (''a.cs'', 2, False)]"
  by code_simp

subsection \<open>Pairing files with formatter output\<close>






lemma buildInput_Some:
  "list_all (\<lambda>f. readFile env f \<noteq> None) files \<Longrightarrow> \<exists>input. buildInput env files = Some input"
  by (induction files) auto



subsection \<open>The calls of a pass\<close>

lemma attempts_append: "attempts (xs @ ys) = attempts xs @ attempts ys"
  by (induction xs rule: attempts.induct) auto

lemma attempts_deleteComments:
  "attempts (deleteComments env n cs) = map (\<lambda>c. DeleteReviewComment (vid c)) cs"
  by (induction cs arbitrary: n) auto


lemma createViolationComments_goes:
  "reconcileInput env filePath formattedContent = Some (pullNumber, prPatch, patch_hunks) \<Longrightarrow>
   createViolationComments env filePath commitSha formattedContent existing n =
     (if generateFormattingHunks patch_hunks = [] then []
      else deleteComments env n (filter (\<lambda>c. \<not> isResolved c) existing) @
           fst (createComments env pullNumber filePath commitSha prPatch
                  (n + length (filter (\<lambda>c. \<not> isResolved c) existing))
                  (generateFormattingHunks patch_hunks)) @
           (if snd (createComments env pullNumber filePath commitSha prPatch
                  (n + length (filter (\<lambda>c. \<not> isResolved c) existing))
                  (generateFormattingHunks patch_hunks)) = Threw
            then [Warning (FailedToCreate filePath)] else []))"
  by (auto simp: reconcileInput_def createViolationComments_def Let_def
      split: option.splits prod.splits if_splits Outcome.splits)

lemma part002_stops:
  "reconcileInput env filePath formattedContent = None \<Longrightarrow>
   attempts (createViolationComments_part002 env filePath commitSha formattedContent existing n) = []"
  by (auto simp: reconcileInput_def createViolationComments_part002_def
      split: option.splits prod.splits if_splits)

lemma part002_goes:
  "reconcileInput env filePath formattedContent = Some (pullNumber, prPatch, patch_hunks) \<Longrightarrow>
   createViolationComments_part002 env filePath commitSha formattedContent existing n =
     (if generateFormattingHunks_part002 patch_hunks = [] then []
      else fst (createOrUpdateComments env pullNumber filePath commitSha prPatch existing n
                  (generateFormattingHunks_part002 patch_hunks)) @
           (if snd (createOrUpdateComments env pullNumber filePath commitSha prPatch existing n
                  (generateFormattingHunks_part002 patch_hunks)) = Threw
            then [Warning (FailedToCreate filePath)] else []))"
  by (auto simp: reconcileInput_def createViolationComments_part002_def Let_def
      split: option.splits prod.splits if_splits Outcome.splits)

lemma attempts_createComments:
  "call \<in> set (attempts (fst (createComments env pn path sha prPatch n hunks))) \<Longrightarrow>
   \<exists>h \<in> set hunks. findLineInPRDiff env prPatch (lineNumber h) \<noteq> 0 \<and>
     call = CreateReviewComment pn (commentBody path (content h)) sha path
              (findLineInPRDiff env prPatch (lineNumber h))"
proof (induction hunks arbitrary: n)
  case Nil
  then show ?case by simp
next
  case (Cons h hs)
  show ?case
  proof (cases "findLineInPRDiff env prPatch (lineNumber h) = 0")
    case True
    then show ?thesis using Cons by (auto simp: Let_def)
  next
    case False
    show ?thesis
    proof (cases "callFails env n")
      case True
      then show ?thesis using Cons.prems False by (auto simp: Let_def)
    next
      case nf: False
      then show ?thesis using Cons.prems False Cons.IH [of "Suc n"]
        by (auto simp: Let_def split: prod.splits)
    qed
  qed
qed







subsection \<open>Replies for fixed files\<close>






subsection \<open>Hunks outside the diff of the pull request\<close>

lemma findLineInPRDiff_visible:
  "findLineInPRDiff env prPatch t = (if t \<in> set (visibleLines env prPatch) then t else 0)"
  by (simp add: findLineInPRDiff_cases visibleLines_def split: list.splits)

lemma createComments_skip:
  "findLineInPRDiff env prPatch (lineNumber hunk) = 0 \<Longrightarrow>
   createComments env pn path sha prPatch n (before @ hunk # after) =
   createComments env pn path sha prPatch n (before @ after)"
  by (induction before arbitrary: n) (auto simp: Let_def split: prod.splits)

lemma createOrUpdateComments_skip:
  "findLineInPRDiff env prPatch (lineNumber hunk) = 0 \<Longrightarrow>
   createOrUpdateComments env pn path sha prPatch existing n (before @ hunk # after) =
   createOrUpdateComments env pn path sha prPatch existing n (before @ after)"
  by (induction before arbitrary: n) (auto simp: Let_def split: prod.splits option.splits)

lemma attempts_createOrUpdateComments:
  "call \<in> set (attempts (fst (createOrUpdateComments env pn path sha prPatch existing n hunks))) \<Longrightarrow>
   (\<exists>h \<in> set hunks. findLineInPRDiff env prPatch (lineNumber h) \<noteq> 0 \<and>
     call = CreateReviewComment pn (commentBody_part002 path (content h)) sha path
              (findLineInPRDiff env prPatch (lineNumber h)))
   \<or> (\<exists>i b. call = UpdateReviewComment i b)"
proof (induction hunks arbitrary: n)
  case Nil
  then show ?case by simp
next
  case (Cons h hs)
  show ?case
  proof (cases "findLineInPRDiff env prPatch (lineNumber h) = 0")
    case True
    then show ?thesis using Cons by (auto simp: Let_def)
  next
    case False
    show ?thesis
    proof (cases "callFails env n")
      case True
      then show ?thesis using Cons.prems False Cons.IH [of n]
        by (auto simp: Let_def split: option.splits if_splits)
    next
      case nf: False
      then show ?thesis using Cons.prems False Cons.IH [of "Suc n"] Cons.IH [of n]
        by (auto simp: Let_def split: prod.splits option.splits if_splits)
    qed
  qed
qed

text \<open>
  Claim C7. When a pass reaches the hunks with the patch \<open>prPatch\<close> of the file, a
  formatting hunk whose anchor line is not among the lines that \<open>prPatch\<close> shows (not
  reachable as an \<open>add\<close> or \<open>normal\<close> entry of any chunk) is mapped to \<open>0\<close>, and the
  pass attempts no creation at that line, whatever the existing comments and whichever
  calls throw. The skip is silent: the loop over the hunks gives the same events and the
  same outcome as if the hunk were not in the list. Both hold in
  \<^verbatim>\<open>src/src/comment-manager.ts\<close> and in the revision of \<^verbatim>\<open>src/unnamed/part_002\<close>.
\<close>

theorem invisible_hunk_is_skipped:
  assumes reach: "reconcileInput env filePath formattedContent = Some (pullNumber, prPatch, patch_hunks)"
    and inv: "lineNumber hunk \<notin> set (visibleLines env prPatch)"
  shows "findLineInPRDiff env prPatch (lineNumber hunk) = 0
    \<and> filter (isCreateAt (lineNumber hunk))
        (attempts (createViolationComments env filePath commitSha formattedContent existingComments n)) = []
    \<and> createComments env pullNumber filePath commitSha prPatch m (before @ hunk # after) =
      createComments env pullNumber filePath commitSha prPatch m (before @ after)
    \<and> filter (isCreateAt (lineNumber hunk))
        (attempts (createViolationComments_part002 env filePath commitSha formattedContent existingComments n)) = []
    \<and> createOrUpdateComments env pullNumber filePath commitSha prPatch existingComments m (before @ hunk # after) =
      createOrUpdateComments env pullNumber filePath commitSha prPatch existingComments m (before @ after)"
proof -
  have zero: "findLineInPRDiff env prPatch (lineNumber hunk) = 0"
    using inv by (simp add: findLineInPRDiff_visible)
  have vis: "\<And>t. findLineInPRDiff env prPatch t = 0
                \<or> findLineInPRDiff env prPatch t \<noteq> lineNumber hunk"
    using inv by (auto simp: findLineInPRDiff_visible)
  have a: "\<And>call. call \<in> set (attempts (createViolationComments env filePath commitSha
              formattedContent existingComments n)) \<Longrightarrow> \<not> isCreateAt (lineNumber hunk) call"
  proof -
    fix call
    assume "call \<in> set (attempts (createViolationComments env filePath commitSha
              formattedContent existingComments n))"
    then have "call \<in> set (map (\<lambda>c. DeleteReviewComment (vid c))
                  (filter (\<lambda>c. \<not> isResolved c) existingComments))
        \<or> call \<in> set (attempts (fst (createComments env pullNumber filePath commitSha prPatch
              (n + length (filter (\<lambda>c. \<not> isResolved c) existingComments))
              (generateFormattingHunks patch_hunks))))"
      unfolding createViolationComments_goes [OF reach]
      by (auto simp: attempts_append attempts_deleteComments split: if_splits)
    then show "\<not> isCreateAt (lineNumber hunk) call"
    proof
      assume "call \<in> set (map (\<lambda>c. DeleteReviewComment (vid c))
                  (filter (\<lambda>c. \<not> isResolved c) existingComments))"
      then show ?thesis by auto
    next
      assume "call \<in> set (attempts (fst (createComments env pullNumber filePath commitSha prPatch
              (n + length (filter (\<lambda>c. \<not> isResolved c) existingComments))
              (generateFormattingHunks patch_hunks))))"
      from attempts_createComments [OF this]
      obtain h :: FormattingHunk where "findLineInPRDiff env prPatch (lineNumber h) \<noteq> 0"
        and "call = CreateReviewComment pullNumber (commentBody filePath (content h))
                      commitSha filePath (findLineInPRDiff env prPatch (lineNumber h))"
        by blast
      then show ?thesis using vis [of "lineNumber h"] by simp
    qed
  qed
  have b: "\<And>call. call \<in> set (attempts (createViolationComments_part002 env filePath commitSha
              formattedContent existingComments n)) \<Longrightarrow> \<not> isCreateAt (lineNumber hunk) call"
  proof -
    fix call
    assume "call \<in> set (attempts (createViolationComments_part002 env filePath commitSha
              formattedContent existingComments n))"
    then have "call \<in> set (attempts (fst (createOrUpdateComments env pullNumber filePath commitSha
              prPatch existingComments n (generateFormattingHunks_part002 patch_hunks))))"
      unfolding part002_goes [OF reach]
      by (auto simp: attempts_append split: if_splits)
    from attempts_createOrUpdateComments [OF this]
    show "\<not> isCreateAt (lineNumber hunk) call"
    proof
      assume "\<exists>h \<in> set (generateFormattingHunks_part002 patch_hunks).
          findLineInPRDiff env prPatch (lineNumber h) \<noteq> 0 \<and>
          call = CreateReviewComment pullNumber (commentBody_part002 filePath (content h))
                   commitSha filePath (findLineInPRDiff env prPatch (lineNumber h))"
      then obtain h :: FormattingHunk where "findLineInPRDiff env prPatch (lineNumber h) \<noteq> 0"
        and "call = CreateReviewComment pullNumber (commentBody_part002 filePath (content h))
                      commitSha filePath (findLineInPRDiff env prPatch (lineNumber h))"
        by blast
      then show ?thesis using vis [of "lineNumber h"] by simp
    next
      assume "\<exists>i b. call = UpdateReviewComment i b"
      then show ?thesis by auto
    qed
  qed
  show ?thesis
    using zero a b createComments_skip [OF zero] createOrUpdateComments_skip [OF zero]
    by (simp add: filter_empty_conv)
qed

theorem invisible_hunk_is_skipped_witness:
  "reconcileInput outsideEnv ''t.cs'' outsideFormatted = Some (6, outsidePatch, [outsideHunk])
   \<and> map lineNumber (generateFormattingHunks [outsideHunk]) = [1]
   \<and> visibleLines outsideEnv outsidePatch = [5, 6, 7, 8, 9]
   \<and> findLineInPRDiff outsideEnv outsidePatch 1 = 0
   \<and> filter (isCreateAt 1)
       (attempts (createViolationComments outsideEnv ''t.cs'' ''51636e9'' outsideFormatted [] 0)) = []"
proof -
  define h where "h = \<lparr> lineNumber = 1, content = ''n T'', originalLineRange = (1, 4) \<rparr>"
  have r: "reconcileInput outsideEnv ''t.cs'' outsideFormatted = Some (6, outsidePatch, [outsideHunk])"
    by code_simp
  have g: "generateFormattingHunks [outsideHunk] = [h]" unfolding h_def by code_simp
  have v: "visibleLines outsideEnv outsidePatch = [5, 6, 7, 8, 9]" by code_simp
  have i: "lineNumber h \<notin> set (visibleLines outsideEnv outsidePatch)"
    unfolding v by (simp add: h_def)
  have l: "lineNumber h = 1" by (simp add: h_def)
  show ?thesis
    using invisible_hunk_is_skipped [OF r i, of "''51636e9''" "[]" 0] r g v
    unfolding l by (simp add: l)
qed

subsection \<open>Deleting, creating and failing calls\<close>

lemma createComments_attempts:
  "attempts (fst (createComments env pn path sha p n hunks)) =
     untilFailure (callFails env) n (creationsFor env pn path sha p hunks)"
proof (induction hunks arbitrary: n)
  case Nil
  then show ?case by (simp add: creationsFor_def)
next
  case (Cons h hs)
  show ?case
  proof (cases "lineNumber h \<noteq> 0 \<and> lineNumber h \<in> set (visibleLines env p)")
    case True
    then have l: "findLineInPRDiff env p (lineNumber h) = lineNumber h"
      by (simp add: findLineInPRDiff_visible)
    have c: "creationsFor env pn path sha p (h # hs) =
        CreateReviewComment pn (commentBody path (content h)) sha path (lineNumber h)
          # creationsFor env pn path sha p hs"
      using True by (simp add: creationsFor_def)
    show ?thesis
      unfolding c using True l Cons.IH [of "Suc n"]
      by (auto simp: Let_def split: prod.splits)
  next
    case False
    then have l: "findLineInPRDiff env p (lineNumber h) = 0"
      by (auto simp: findLineInPRDiff_visible)
    have c: "creationsFor env pn path sha p (h # hs) = creationsFor env pn path sha p hs"
      using False by (auto simp: creationsFor_def)
    show ?thesis unfolding c using l Cons.IH [of n] by simp
  qed
qed

lemma createComments_log:
  "warnings (fst (createComments env pn path sha p n hunks)) = []
   \<and> map warningOf (failedCalls (fst (createComments env pn path sha p n hunks))) =
       (if snd (createComments env pn path sha p n hunks) = Threw
        then [Some (FailedToCreate path)] else [])"
proof (induction hunks arbitrary: n)
  case Nil
  then show ?case by simp
next
  case (Cons h hs)
  show ?case
  proof (cases "findLineInPRDiff env p (lineNumber h) = 0")
    case True
    then show ?thesis using Cons.IH [of n] by simp
  next
    case False
    show ?thesis
    proof (cases "callFails env n")
      case True
      then show ?thesis using False by (simp add: Let_def)
    next
      case nf: False
      then show ?thesis using False Cons.IH [of "Suc n"]
        by (auto simp: Let_def split: prod.splits)
    qed
  qed
qed

lemma deleteComments_log:
  "map Some (warnings (deleteComments env n cs)) =
     map warningOf (failedCalls (deleteComments env n cs))"
  by (induction cs arbitrary: n) auto

lemma warnings_append: "warnings (xs @ ys) = warnings xs @ warnings ys"
  by (induction xs rule: warnings.induct) auto

lemma failedCalls_append: "failedCalls (xs @ ys) = failedCalls xs @ failedCalls ys"
  by (induction xs rule: failedCalls.induct) auto

lemma untilFailure_ok: "\<forall>i. \<not> fails i \<Longrightarrow> untilFailure fails n calls = calls"
  by (induction calls arbitrary: n) auto

lemma deleteComments_ok:
  "\<forall>i. \<not> callFails env i \<Longrightarrow>
   deleteComments env n cs = map (\<lambda>c. Called (DeleteReviewComment (vid c))) cs"
  by (induction cs arbitrary: n) auto

lemma createComments_ok:
  "\<forall>i. \<not> callFails env i \<Longrightarrow>
   createComments env pn path sha p n hunks =
     (map Called (creationsFor env pn path sha p hunks), Returned)"
proof (induction hunks arbitrary: n)
  case Nil
  then show ?case by (simp add: creationsFor_def)
next
  case (Cons h hs)
  show ?case
  proof (cases "lineNumber h \<noteq> 0 \<and> lineNumber h \<in> set (visibleLines env p)")
    case True
    then have l: "findLineInPRDiff env p (lineNumber h) = lineNumber h"
      by (simp add: findLineInPRDiff_visible)
    have c: "creationsFor env pn path sha p (h # hs) =
        CreateReviewComment pn (commentBody path (content h)) sha path (lineNumber h)
          # creationsFor env pn path sha p hs"
      using True by (simp add: creationsFor_def)
    show ?thesis
      unfolding c using True l Cons.prems Cons.IH [OF Cons.prems, of "Suc n"]
      by (simp add: Let_def)
  next
    case False
    then have l: "findLineInPRDiff env p (lineNumber h) = 0"
      by (auto simp: findLineInPRDiff_visible)
    have c: "creationsFor env pn path sha p (h # hs) = creationsFor env pn path sha p hs"
      using False by (auto simp: creationsFor_def)
    show ?thesis unfolding c using l Cons.IH [OF Cons.prems, of n] by simp
  qed
qed

lemma violationLoop_append:
  "violationLoop env sha fm existing n (fs @ gs) =
     violationLoop env sha fm existing n fs @
     violationLoop env sha fm existing
       (n + length (attempts (violationLoop env sha fm existing n fs))) gs"
  by (induction fs arbitrary: n) (simp_all add: Let_def attempts_append add.assoc)

text \<open>
  Claim C1, as \<^verbatim>\<open>src/src/comment-manager.ts\<close> has it. A run with unchanged inputs is
  not free of calls: when the pass has at least one formatting hunk and no call throws,
  it deletes every unresolved comment of \<open>existingComments\<close>, whether or not its line
  and body match a hunk, and then creates one comment for every hunk whose anchor line
  the patch of the pull request shows, whether or not a comment with that line and body
  exists. The creations do not depend on \<open>existingComments\<close>: they are the same in
  every run.
\<close>

theorem createViolationComments_deletes_and_recreates:
  assumes reach: "reconcileInput env filePath formattedContent = Some (pullNumber, prPatch, patch_hunks)"
    and hunks: "generateFormattingHunks patch_hunks \<noteq> []"
    and ok: "\<forall>i. \<not> callFails env i"
  shows "createViolationComments env filePath commitSha formattedContent existingComments n =
     map (\<lambda>c. Called (DeleteReviewComment (vid c)))
       (filter (\<lambda>c. \<not> isResolved c) existingComments) @
     map Called (creationsFor env pullNumber filePath commitSha prPatch
                   (generateFormattingHunks patch_hunks))"
  unfolding createViolationComments_goes [OF reach]
  using hunks by (simp add: deleteComments_ok [OF ok] createComments_ok [OF ok])

text \<open>
  Claim C9, as \<^verbatim>\<open>src/src/comment-manager.ts\<close> has it. In a pass that has at least one
  formatting hunk: every unresolved existing comment gets its delete attempt, whichever
  calls throw; the creations are then attempted in the order of the hunks up to and
  including the first one that throws, and the later hunks of the file get no call; each
  call that threw is logged as one warning, in order; and the loop of the run over the
  unformatted files goes on with this file and the files after it whatever happened in
  the files before it.
\<close>

theorem failures_in_createViolationComments:
  assumes reach: "reconcileInput env filePath formattedContent = Some (pullNumber, prPatch, patch_hunks)"
    and hunks: "generateFormattingHunks patch_hunks \<noteq> []"
    and unresolved: "unresolved = filter (\<lambda>c. \<not> isResolved c) existingComments"
    and evs: "evs = createViolationComments env filePath commitSha formattedContent existingComments n"
  shows "attempts evs =
       map (\<lambda>c. DeleteReviewComment (vid c)) unresolved @
       untilFailure (callFails env) (n + length unresolved)
         (creationsFor env pullNumber filePath commitSha prPatch
            (generateFormattingHunks patch_hunks))
     \<and> map Some (warnings evs) = map warningOf (failedCalls evs)
     \<and> violationLoop env commitSha formattedMap existingComments n (files @ filePath # others) =
         violationLoop env commitSha formattedMap existingComments n files @
         violationLoop env commitSha formattedMap existingComments
           (n + length (attempts (violationLoop env commitSha formattedMap existingComments n files)))
           (filePath # others)"
proof -
  let ?cr = "createComments env pullNumber filePath commitSha prPatch
               (n + length unresolved) (generateFormattingHunks patch_hunks)"
  have e: "evs = deleteComments env n unresolved @ fst ?cr @
             (if snd ?cr = Threw then [Warning (FailedToCreate filePath)] else [])"
    unfolding evs createViolationComments_goes [OF reach] unresolved using hunks by simp
  have a: "attempts evs = map (\<lambda>c. DeleteReviewComment (vid c)) unresolved @
       untilFailure (callFails env) (n + length unresolved)
         (creationsFor env pullNumber filePath commitSha prPatch
            (generateFormattingHunks patch_hunks))"
    unfolding e by (simp add: attempts_append attempts_deleteComments createComments_attempts)
  have w: "map Some (warnings evs) = map warningOf (failedCalls evs)"
    unfolding e using createComments_log [of env pullNumber filePath commitSha prPatch
        "n + length unresolved" "generateFormattingHunks patch_hunks"]
    by (simp add: warnings_append failedCalls_append deleteComments_log)
  show ?thesis using a w violationLoop_append by simp
qed

text \<open>
  The claim as stated fails. The first pass over the example file creates one comment;
  the second pass, given that comment as the only existing one, deletes it and creates
  it again (the repository's test \<^verbatim>\<open>replaces existing comment even when content is
  identical\<close>). In the revision of \<^verbatim>\<open>src/unnamed/part_002\<close> the second pass is not
  free of calls either: it updates the first of the two comments of line 2.
\<close>

theorem second_run_calls_again:
  "createViolationComments abcEnv ''a.cs'' ''51636e9'' abcFormatted [] 0 =
     [Called (CreateReviewComment 6 (commentBody ''a.cs'' (''X'' @ newline @ ''Y''))
                ''51636e9'' ''a.cs'' 2)]
   \<and> getExistingComments abcEnv
         (mockComments
            (replay (createViolationComments abcEnv ''a.cs'' ''51636e9'' abcFormatted [] 0) newMock))
       = abcLeftBehind
   \<and> createViolationComments abcEnv ''a.cs'' ''51636e9'' abcFormatted abcLeftBehind 0 =
     [Called (DeleteReviewComment 1),
      Called (CreateReviewComment 6 (commentBody ''a.cs'' (''X'' @ newline @ ''Y''))
                ''51636e9'' ''a.cs'' 2)]
   \<and> attempts
         (createViolationComments_part002 abcEnv ''a.cs'' ''51636e9'' abcFormatted
            (getExistingComments abcEnv
               (mockComments
                  (replay (createViolationComments_part002 abcEnv ''a.cs'' ''51636e9''
                             abcFormatted [] 0) newMock))) 0) =
     [UpdateReviewComment 1
        (commentBody_part002 ''a.cs'' (''X'' @ newline @ ''C'' @ newline @ ''Y'' @ newline @ ''E''))]"
  by code_simp

theorem createViolationComments_deletes_and_recreates_witness:
  "reconcileInput abcEnv ''a.cs'' abcFormatted = Some (6, abcPatch, [abcHunk])
   \<and> generateFormattingHunks [abcHunk] \<noteq> []
   \<and> createViolationComments abcEnv ''a.cs'' ''51636e9'' abcFormatted abcLeftBehind 0 =
     [Called (DeleteReviewComment 1),
      Called (CreateReviewComment 6 (commentBody ''a.cs'' (''X'' @ newline @ ''Y''))
                ''51636e9'' ''a.cs'' 2)]"
proof -
  have r: "reconcileInput abcEnv ''a.cs'' abcFormatted = Some (6, abcPatch, [abcHunk])"
    by code_simp
  have h: "generateFormattingHunks [abcHunk] \<noteq> []" by code_simp
  have ok: "\<forall>i. \<not> callFails abcEnv i" by (simp add: abcEnv_def)
  have v: "map (\<lambda>c. Called (DeleteReviewComment (vid c)))
             (filter (\<lambda>c. \<not> isResolved c) abcLeftBehind) @
           map Called (creationsFor abcEnv 6 ''a.cs'' ''51636e9'' abcPatch
                         (generateFormattingHunks [abcHunk])) =
     [Called (DeleteReviewComment 1),
      Called (CreateReviewComment 6 (commentBody ''a.cs'' (''X'' @ newline @ ''Y''))
                ''51636e9'' ''a.cs'' 2)]"
    by code_simp
  show ?thesis
    using createViolationComments_deletes_and_recreates [OF r h ok, of "''51636e9''" abcLeftBehind 0]
      r h
    unfolding v by simp
qed

text \<open>
  The claim as stated fails. With the first call throwing, the pass over the twelve-line
  file attempts the creation at line 1 and never the one at line 9; and
  \<open>resolveFixedComments\<close>, whose loop has no \<^verbatim>\<open>try\<close>, throws at the first reply,
  never replies to the second comment, and ends the run before any file is reconciled.
\<close>

theorem one_failure_stops_the_rest:
  "attempts (createViolationComments twoEnv ''m.cs'' ''51636e9'' twoFormatted [] 0) =
     [CreateReviewComment 6 (commentBody ''m.cs'' ''n T'') ''51636e9'' ''m.cs'' 1,
      CreateReviewComment 6 (commentBody ''m.cs'' ''p A'') ''51636e9'' ''m.cs'' 9]
   \<and> createViolationComments failingEnv ''m.cs'' ''51636e9'' twoFormatted [] 0 =
     [Failed (CreateReviewComment 6 (commentBody ''m.cs'' ''n T'') ''51636e9'' ''m.cs'' 1),
      Warning (FailedToCreate ''m.cs'')]
   \<and> resolveFixedComments failingEnv twoFixed [''x.cs'', ''y.cs''] 0 =
     ([Failed (CreateReplyForReviewComment 6 1 replyBody)], Threw)
   \<and> runReconcile failingEnv twoFixed [''m.cs'' \<mapsto> twoFormatted] [''m.cs''] =
     ([Failed (CreateReplyForReviewComment 6 1 replyBody)], Threw)"
  by code_simp

theorem failures_in_createViolationComments_witness:
  "reconcileInput failingEnv ''m.cs'' twoFormatted = Some (6, twoPatch, twoHunks)
   \<and> generateFormattingHunks twoHunks \<noteq> []
   \<and> attempts (createViolationComments failingEnv ''m.cs'' ''51636e9'' twoFormatted twoExisting 0) =
     [DeleteReviewComment 11, DeleteReviewComment 12,
      CreateReviewComment 6 (commentBody ''m.cs'' ''n T'') ''51636e9'' ''m.cs'' 1,
      CreateReviewComment 6 (commentBody ''m.cs'' ''p A'') ''51636e9'' ''m.cs'' 9]
   \<and> map Some
       (warnings (createViolationComments failingEnv ''m.cs'' ''51636e9'' twoFormatted twoExisting 0)) =
     [Some (FailedToDelete 11)]"
proof -
  have r: "reconcileInput failingEnv ''m.cs'' twoFormatted = Some (6, twoPatch, twoHunks)"
    by code_simp
  have h: "generateFormattingHunks twoHunks \<noteq> []" by code_simp
  have u: "twoExisting = filter (\<lambda>c. \<not> isResolved c) twoExisting"
    by (simp add: twoExisting_def)
  have a: "map (\<lambda>c. DeleteReviewComment (vid c)) twoExisting @
       untilFailure (callFails failingEnv) (0 + length twoExisting)
         (creationsFor failingEnv 6 ''m.cs'' ''51636e9'' twoPatch
            (generateFormattingHunks twoHunks)) =
     [DeleteReviewComment 11, DeleteReviewComment 12,
      CreateReviewComment 6 (commentBody ''m.cs'' ''n T'') ''51636e9'' ''m.cs'' 1,
      CreateReviewComment 6 (commentBody ''m.cs'' ''p A'') ''51636e9'' ''m.cs'' 9]"
    by code_simp
  have w: "map warningOf (failedCalls
       (createViolationComments failingEnv ''m.cs'' ''51636e9'' twoFormatted twoExisting 0)) =
     [Some (FailedToDelete 11)]"
    by code_simp
  show ?thesis
    using failures_in_createViolationComments [OF r h u refl, of "''51636e9''" 0] r h
    unfolding a w by simp
qed

subsection \<open>The content of a FormattingHunk\<close>

lemma takeWhile_shorter:
  "list_ex Q xs \<Longrightarrow> length (takeWhile (\<lambda>x. \<not> Q x) xs) < length xs"
  by (induction xs) auto

lemma firstChange_Cons:
  "firstChange (l # ls) = (if isChange l then 0 else Suc (firstChange ls))"
  by (simp add: firstChange_def)

lemma lastChange_Cons_later:
  assumes "list_ex isChange ls"
  shows "lastChange (l # ls) = Suc (lastChange ls)"
proof -
  have ex: "list_ex isChange (rev ls)" using assms by (simp add: list_ex_iff)
  then obtain x where "x \<in> set (rev ls)" "\<not> \<not> isChange x" by (auto simp: list_ex_iff)
  then have "takeWhile (\<lambda>l. \<not> isChange l) (rev ls @ [l]) = takeWhile (\<lambda>l. \<not> isChange l) (rev ls)"
    by (rule takeWhile_append1)
  moreover have "length (takeWhile (\<lambda>l. \<not> isChange l) (rev ls)) < length ls"
    using takeWhile_shorter [OF ex] by simp
  ultimately show ?thesis by (simp add: lastChange_def)
qed

lemma lastChange_Cons_here:
  assumes "\<not> list_ex isChange ls"
  shows "lastChange (l # ls) = 0"
proof -
  have "\<And>x. x \<in> set (rev ls) \<Longrightarrow> \<not> isChange x" using assms by (simp add: list_ex_iff)
  then have "takeWhile (\<lambda>l. \<not> isChange l) (rev ls @ [l])
      = rev ls @ takeWhile (\<lambda>l. \<not> isChange l) [l]"
    by (rule takeWhile_append2)
  then show ?thesis by (simp add: lastChange_def)
qed

lemma findChanges_char:
  "0 \<le> i \<Longrightarrow>
   findChanges ls i (f, la) =
     (if f \<noteq> -1 then f
      else if list_ex isChange ls then i + int (firstChange ls) else -1,
      if list_ex isChange ls then i + int (lastChange ls) else la)"
proof (induction ls arbitrary: i f la)
  case Nil
  then show ?case by simp
next
  case (Cons l ls)
  have i1: "0 \<le> i + 1" using Cons.prems by simp
  show ?case
  proof (cases "isChange l")
    case True
    then have c: "isAddition l \<or> isDeletion l" by (simp add: isChange_def)
    have ne: "(if f = -1 then i else f) \<noteq> -1" using Cons.prems by simp
    show ?thesis
      using True c ne Cons.prems Cons.IH [OF i1, of "if f = -1 then i else f" i]
      by (auto simp: firstChange_Cons lastChange_Cons_later lastChange_Cons_here)
  next
    case False
    then have c: "\<not> (isAddition l \<or> isDeletion l)" by (simp add: isChange_def)
    show ?thesis
      using False c Cons.IH [OF i1, of f la]
      by (auto simp: firstChange_Cons lastChange_Cons_later)
  qed
qed

lemma formattingHunkOf_char:
  "formattingHunkOf hunk =
     (if \<not> list_ex isChange (lines hunk) then []
      else if filter isAddition
                (window (firstChange (lines hunk)) (lastChange (lines hunk)) (lines hunk)) = []
      then []
      else [\<lparr> lineNumber = newStart hunk +
                  int (length (filter inNewFile (take (firstChange (lines hunk)) (lines hunk)))),
              content = join newline
                  (map substring1
                     (filter isAddition
                        (window (firstChange (lines hunk)) (lastChange (lines hunk))
                           (lines hunk)))),
              originalLineRange = (oldStart hunk, oldStart hunk + oldLines hunk - 1) \<rparr>])"
  by (simp add: formattingHunkOf_def findChanges_char Let_def)

lemma filter_parts:
  "filter P xs = filter P (take s xs) @ filter P (window s e xs)
      @ filter P (drop (Suc e - s) (drop s xs))"
proof -
  let ?n = "Suc e - s"
  have "take ?n (drop s xs) @ drop ?n (drop s xs) = drop s xs"
    by (rule append_take_drop_id)
  then have "take s xs @ take ?n (drop s xs) @ drop ?n (drop s xs) = xs"
    by (simp only: append_take_drop_id)
  then have "xs = take s xs @ take ?n (drop s xs) @ drop ?n (drop s xs)"
    by (rule sym)
  then show ?thesis
    unfolding window_def by (metis filter_append)
qed

lemma window_filter_slice:
  "filter P (window s e xs) =
     take (length (filter P (window s e xs)))
       (drop (length (filter P (take s xs))) (filter P xs))"
proof -
  let ?n = "Suc e - s"
  have "take ?n (drop s xs) @ drop ?n (drop s xs) = drop s xs"
    by (rule append_take_drop_id)
  then have "take s xs @ take ?n (drop s xs) @ drop ?n (drop s xs) = xs"
    by (simp only: append_take_drop_id)
  then have "xs = take s xs @ take ?n (drop s xs) @ drop ?n (drop s xs)"
    by (rule sym)
  then have "filter P xs = filter P (take s xs) @ filter P (window s e xs)
      @ filter P (drop ?n (drop s xs))"
    unfolding window_def by (metis filter_append)
  then show ?thesis by simp
qed

lemma slice_of_slice:
  assumes "take n (drop s fl) = ns" and "a + k \<le> length ns"
  shows "take k (drop a ns) = take k (drop (s + a) fl)"
proof -
  have "a + k \<le> n" using assms by auto
  then have "min k (n - a) = k" by simp
  then show ?thesis
    unfolding assms(1) [symmetric] by (simp add: drop_take add.commute)
qed

lemma formattingHunk_content:
  assumes fh: "fh \<in> set (generateFormattingHunks patch_hunks)"
    and agree: "\<forall>hunk \<in> set patch_hunks. agreesWith hunk formattedLines"
  shows "\<exists>hunk \<in> set patch_hunks. \<exists>changed.
           changed = window (firstChange (lines hunk)) (lastChange (lines hunk)) (lines hunk)
         \<and> content fh = join newline (map substring1 (filter isAddition changed))
         \<and> ((\<forall>l \<in> set changed. \<not> isContext l) \<longrightarrow>
              content fh = join newline
                (take (length (filter isAddition changed))
                   (drop (nat (lineNumber fh - 1)) formattedLines)))"
proof -
  from fh obtain hunk where hunk: "hunk \<in> set patch_hunks" "fh \<in> set (formattingHunkOf hunk)"
    by (auto simp: generateFormattingHunks_def)
  let ?ls = "lines hunk"
  let ?W = "window (firstChange ?ls) (lastChange ?ls) ?ls"
  let ?a = "length (filter inNewFile (take (firstChange ?ls) ?ls))"
  have c: "content fh = join newline (map substring1 (filter isAddition ?W))"
    and l: "lineNumber fh = newStart hunk + int ?a"
    using hunk(2) unfolding formattingHunkOf_char
    by (auto simp: newline_def split: if_splits)
  have slice: "content fh = join newline
        (take (length (filter isAddition ?W)) (drop (nat (lineNumber fh - 1)) formattedLines))"
    if plain: "\<forall>l \<in> set ?W. \<not> isContext l"
  proof -
    have same: "filter isAddition ?W = filter inNewFile ?W"
      by (rule filter_cong) (use plain in \<open>auto simp: inNewFile_def\<close>)
    let ?k = "length (filter inNewFile ?W)"
    have w: "filter inNewFile ?W = take ?k (drop ?a (filter inNewFile ?ls))"
      by (rule window_filter_slice)
    have "length (filter inNewFile ?ls) = ?a + ?k
        + length (filter inNewFile (drop (Suc (lastChange ?ls) - firstChange ?ls)
                                      (drop (firstChange ?ls) ?ls)))"
      using filter_parts [of inNewFile ?ls "firstChange ?ls" "lastChange ?ls"]
      by (metis length_append add.assoc)
    then have le: "?a + ?k \<le> length (newSide hunk)" by (simp add: newSide_def)
    have ag: "take (length (newSide hunk)) (drop (nat (newStart hunk - 1)) formattedLines)
        = newSide hunk" and pos: "1 \<le> newStart hunk"
      using agree hunk(1) by (auto simp: agreesWith_def)
    have "map substring1 (filter inNewFile ?W)
        = map substring1 (take ?k (drop ?a (filter inNewFile ?ls)))"
      using w by (rule arg_cong)
    also have "\<dots> = take ?k (drop ?a (newSide hunk))"
      by (simp only: newSide_def take_map drop_map)
    also have "\<dots> = take ?k (drop (nat (newStart hunk - 1) + ?a) formattedLines)"
      by (rule slice_of_slice [OF ag le])
    also have "nat (newStart hunk - 1) + ?a = nat (lineNumber fh - 1)"
      using l pos by simp
    finally show ?thesis using c same by simp
  qed
  show ?thesis using hunk(1) c slice by blast
qed

text \<open>
  In the revision of \<^verbatim>\<open>src/unnamed/part_002\<close> the content of a FormattingHunk is the
  context and added lines in the window of its change block, three lines before the
  block to three lines after it, clamped to the hunk, and it is a slice of the formatted
  file.
\<close>

lemma part002_content_is_slice:
  assumes fh: "fh \<in> set (generateFormattingHunks_part002 patch_hunks)"
    and agree: "\<forall>hunk \<in> set patch_hunks. agreesWith hunk formattedLines"
  shows "\<exists>hunk \<in> set patch_hunks. \<exists>change \<in> set (changeBlocks hunk). \<exists>s e.
           s = startIndex change - 3
         \<and> e = min (length (lines hunk) - 1) (endIndex change + 3)
         \<and> content fh = join newline (map substring1 (filter inNewFile (window s e (lines hunk))))
         \<and> content fh = join newline
             (take (length (filter inNewFile (window s e (lines hunk))))
                (drop (nat (newStart hunk - 1) + length (filter inNewFile (take s (lines hunk))))
                   formattedLines))"
proof -
  from fh obtain hunk change where hunk: "hunk \<in> set patch_hunks"
      and change: "change \<in> set (changeBlocks hunk)"
      and fh': "fh = subHunkOf hunk change"
    by (auto simp: generateFormattingHunks_part002_def)
  let ?ls = "lines hunk"
  let ?s = "startIndex change - 3"
  let ?e = "min (length ?ls - 1) (endIndex change + 3)"
  let ?a = "length (filter inNewFile (take ?s ?ls))"
  let ?k = "length (filter inNewFile (window ?s ?e ?ls))"
  have c: "content fh = join newline (map substring1 (filter inNewFile (window ?s ?e ?ls)))"
    unfolding fh' by (simp add: subHunkOf_def Let_def)
  have w: "filter inNewFile (window ?s ?e ?ls) = take ?k (drop ?a (filter inNewFile ?ls))"
    by (rule window_filter_slice)
  have "length (filter inNewFile ?ls) = ?a + ?k
      + length (filter inNewFile (drop (Suc ?e - ?s) (drop ?s ?ls)))"
    using filter_parts [of inNewFile ?ls ?s ?e] by (metis length_append add.assoc)
  then have le: "?a + ?k \<le> length (newSide hunk)" by (simp add: newSide_def)
  have ag: "take (length (newSide hunk)) (drop (nat (newStart hunk - 1)) formattedLines)
      = newSide hunk"
    using agree hunk by (auto simp: agreesWith_def)
  have "map substring1 (filter inNewFile (window ?s ?e ?ls))
      = map substring1 (take ?k (drop ?a (filter inNewFile ?ls)))"
    using w by (rule arg_cong)
  also have "\<dots> = take ?k (drop ?a (newSide hunk))"
    by (simp only: newSide_def take_map drop_map)
  also have "\<dots> = take ?k (drop (nat (newStart hunk - 1) + ?a) formattedLines)"
    by (rule slice_of_slice [OF ag le])
  finally have "content fh = join newline
      (take ?k (drop (nat (newStart hunk - 1) + ?a) formattedLines))"
    using c by simp
  then show ?thesis using hunk change c by blast
qed

text \<open>
  Claim C3, as \<^verbatim>\<open>src/src/comment-manager.ts\<close> has it. The FormattingHunks of a patch are
  those of its hunks. Let \<open>fh\<close> be the FormattingHunk of a hunk that has no context line
  between its first and its last changed line and that is a hunk of a diff to the
  formatted file. Then the content of \<open>fh\<close> is the added lines of the change block
  alone, joined by newlines (no context line around the block, no deletion), and it is
  exactly the slice of the formatted file that starts at the anchor line and has as many
  lines as were added.
\<close>

theorem content_of_one_block_hunk:
  assumes hunk: "hunk \<in> set patch_hunks"
    and fh: "fh \<in> set (formattingHunkOf hunk)"
    and one: "\<forall>l \<in> set (changedLines hunk). \<not> isContext l"
    and agree: "agreesWith hunk formattedLines"
  shows "set (generateFormattingHunks patch_hunks)
           = (\<Union>h \<in> set patch_hunks. set (formattingHunkOf h))
       \<and> fh \<in> set (generateFormattingHunks patch_hunks)
       \<and> content fh = join newline (map substring1 (filter isAddition (changedLines hunk)))
       \<and> content fh = join newline
           (take (length (filter isAddition (changedLines hunk)))
              (drop (nat (lineNumber fh - 1)) formattedLines))"
proof -
  have u: "set (generateFormattingHunks patch_hunks)
           = (\<Union>h \<in> set patch_hunks. set (formattingHunkOf h))"
    by (simp add: generateFormattingHunks_def)
  have m: "fh \<in> set (generateFormattingHunks patch_hunks)"
    unfolding u using hunk fh by blast
  have "fh \<in> set (generateFormattingHunks [hunk])"
    using fh by (simp add: generateFormattingHunks_def)
  moreover have "\<forall>h \<in> set [hunk]. agreesWith h formattedLines" using agree by simp
  ultimately have "\<exists>h \<in> set [hunk]. \<exists>changed.
           changed = window (firstChange (lines h)) (lastChange (lines h)) (lines h)
         \<and> content fh = join newline (map substring1 (filter isAddition changed))
         \<and> ((\<forall>l \<in> set changed. \<not> isContext l) \<longrightarrow>
              content fh = join newline
                (take (length (filter isAddition changed))
                   (drop (nat (lineNumber fh - 1)) formattedLines)))"
    by (rule formattingHunk_content)
  then obtain changed where ch: "changed = changedLines hunk"
      and c1: "content fh = join newline (map substring1 (filter isAddition changed))"
      and c2: "(\<forall>l \<in> set changed. \<not> isContext l) \<longrightarrow>
              content fh = join newline
                (take (length (filter isAddition changed))
                   (drop (nat (lineNumber fh - 1)) formattedLines))"
    unfolding changedLines_def by auto
  have c3: "content fh = join newline
                (take (length (filter isAddition changed))
                   (drop (nat (lineNumber fh - 1)) formattedLines))"
    using c2 one unfolding ch by (rule mp)
  have r: "content fh = join newline (map substring1 (filter isAddition (changedLines hunk)))
      \<and> content fh = join newline
           (take (length (filter isAddition (changedLines hunk)))
              (drop (nat (lineNumber fh - 1)) formattedLines))"
    using c1 c3 unfolding ch by (rule conjI)
  show ?thesis using u m r by (intro conjI) (elim conjE, assumption)+
qed

theorem content_of_one_block_hunk_witness:
  "twoHunks ! 1 \<in> set twoHunks
   \<and> \<lparr> lineNumber = 9, content = ''p A'', originalLineRange = (6, 12) \<rparr>
       \<in> set (formattingHunkOf (twoHunks ! 1))
   \<and> list_all (\<lambda>l. \<not> isContext l) (changedLines (twoHunks ! 1))
   \<and> agreesWith (twoHunks ! 1) twoFormattedLines
   \<and> \<lparr> lineNumber = 9, content = ''p A'', originalLineRange = (6, 12) \<rparr>
       \<in> set (generateFormattingHunks twoHunks)
   \<and> ''p A'' = join newline (map substring1 (filter isAddition (changedLines (twoHunks ! 1))))
   \<and> ''p A'' = join newline
         (take (length (filter isAddition (changedLines (twoHunks ! 1))))
            (drop 8 twoFormattedLines))"
proof -
  define fh where "fh = \<lparr> lineNumber = 9, content = ''p A'', originalLineRange = (6, 12) \<rparr>"
  have a: "twoHunks ! 1 \<in> set twoHunks" by code_simp
  have b: "fh \<in> set (formattingHunkOf (twoHunks ! 1))" unfolding fh_def by code_simp
  have c: "list_all (\<lambda>l. \<not> isContext l) (changedLines (twoHunks ! 1))" by code_simp
  then have c': "\<forall>l \<in> set (changedLines (twoHunks ! 1)). \<not> isContext l"
    by (simp only: list_all_iff)
  have d: "agreesWith (twoHunks ! 1) twoFormattedLines" by code_simp
  have e: "content fh = ''p A''" and l: "nat (lineNumber fh - 1) = 8" by (simp_all add: fh_def)
  note t = content_of_one_block_hunk [OF a b c' d, unfolded e l]
  show ?thesis
    using a b [unfolded fh_def] c d t [unfolded fh_def] by (intro conjI) (elim conjE, assumption)+
qed

text \<open>
  The claim as stated fails on hunks with one change block. In the twelve-line file the
  two hunks have one changed line each; the contents are the added lines \<^verbatim>\<open>n T\<close> and
  \<^verbatim>\<open>p A\<close>, not the context and added lines of the padded windows (which are what the
  revision of \<^verbatim>\<open>src/unnamed/part_002\<close> gives).
\<close>

theorem content_has_no_context_padding:
  "structuredPatch twoEnv ''m.cs'' twoOriginal twoFormatted = twoHunks
   \<and> list_all (\<lambda>hunk. list_all (\<lambda>l. \<not> isContext l) (changedLines hunk)) twoHunks
   \<and> map content (generateFormattingHunks twoHunks) = [''n T'', ''p A'']
   \<and> map paddedContent twoHunks =
       [join newline [''n T'', ''{'', ''c'', ''{''],
        join newline [''}'', ''}'', '''', ''p A'', ''{'', ''m'', ''}'']]
   \<and> map content (generateFormattingHunks twoHunks) \<noteq> map paddedContent twoHunks
   \<and> map content (generateFormattingHunks_part002 twoHunks) = map paddedContent twoHunks"
  by code_simp

text \<open>
  A hunk with a context line between two changes is not split (see C2); its content on
  the example file, \<^verbatim>\<open>X\<close> and \<^verbatim>\<open>Y\<close> without the \<^verbatim>\<open>C\<close> between them, is no slice
  of the formatted file.
\<close>

lemma merged_hunk_content_is_not_a_slice:
  "map content (generateFormattingHunks (structuredPatch abcEnv ''a.cs'' abcOriginal abcFormatted))
     = [''X'' @ newline @ ''Y'']
   \<and> splitOn (CHR 0x0A) abcFormatted = abcFormattedLines
   \<and> agreesWith abcHunk abcFormattedLines
   \<and> \<not> (\<exists>ls. sublist ls abcFormattedLines \<and> join newline ls = ''X'' @ newline @ ''Y'')"
proof -
  have a: "map content
             (generateFormattingHunks (structuredPatch abcEnv ''a.cs'' abcOriginal abcFormatted))
     = [''X'' @ newline @ ''Y'']" by code_simp
  have b: "splitOn (CHR 0x0A) abcFormatted = abcFormattedLines" by code_simp
  have c: "agreesWith abcHunk abcFormattedLines" by code_simp
  have "list_all (\<lambda>ls. join newline ls \<noteq> ''X'' @ newline @ ''Y'') (sublists abcFormattedLines)"
    by code_simp
  then have d: "\<not> (\<exists>ls. sublist ls abcFormattedLines \<and> join newline ls = ''X'' @ newline @ ''Y'')"
    by (simp only: list_all_iff in_set_sublists [symmetric]) blast
  show ?thesis using a b c d by (intro conjI)
qed

end
